theory Spec2Isabelle
  imports Complex_Main "HOL-Library.Word"
begin

section \<open>JavaScript values\<close>

text \<open>
  A JavaScript string is a sequence of 16-bit code units. Numbers are modelled as real
  numbers: every statement below is about the arithmetic the code writes down, not about
  the rounding of IEEE doubles. The one non-finite value the text layout can produce,
  \<^verbatim>\<open>Math.max()\<close> of no arguments, is written \<open>None\<close>.
\<close>

type_synonym jschar = "16 word"

type_synonym jsstring = "jschar list"

abbreviation str :: "string \<Rightarrow> jsstring" where
  "str s \<equiv> map of_char s"

abbreviation ASTERISK :: jschar where "ASTERISK \<equiv> 0x2A"

abbreviation NEWLINE :: jschar where "NEWLINE \<equiv> 0x0A"

abbreviation SPACE :: jschar where "SPACE \<equiv> 0x20"

text \<open>\<^verbatim>\<open>s.split(' ')\<close>: the pieces between the separators; never an empty array.\<close>

fun splitOn :: "jschar \<Rightarrow> jsstring \<Rightarrow> jsstring list" where
  "splitOn sep [] = [[]]"
| "splitOn sep (c # cs) =
     (if c = sep then [] # splitOn sep cs
      else (case splitOn sep cs of
              [] \<Rightarrow> [[c]]
            | w # ws \<Rightarrow> (c # w) # ws))"

section \<open>Markup parser: \<^verbatim>\<open>parseStyledText\<close>\<close>

text \<open>
  The parser and the wrap of \<^verbatim>\<open>utils/canvasGenerator.ts\<close>; \<^verbatim>\<open>App.tsx\<close> holds
  the same two functions as callbacks. The regular expression is
  \<^verbatim>\<open>/(\*.*?\*|\n)/g\<close>. The dot matches every code unit except the four line
  terminators.
\<close>

definition isLineTerminator :: "jschar \<Rightarrow> bool" where
  "isLineTerminator c \<longleftrightarrow> c = 0x0A \<or> c = 0x0D \<or> c = 0x2028 \<or> c = 0x2029"

text \<open>
  \<^verbatim>\<open>.*?\*\<close> after the opening asterisk: the lazy star stops at the first asterisk
  and fails at a line terminator or at the end of the input. The result is the text
  between the asterisks and the input after the closing one.
\<close>

fun lazyUntilAsterisk :: "jsstring \<Rightarrow> (jsstring \<times> jsstring) option" where
  "lazyUntilAsterisk [] = None"
| "lazyUntilAsterisk (c # cs) =
     (if c = ASTERISK then Some ([], cs)
      else if isLineTerminator c then None
      else (case lazyUntilAsterisk cs of
              None \<Rightarrow> None
            | Some (inner, rest) \<Rightarrow> Some (c # inner, rest)))"

text \<open>One match attempt of \<^verbatim>\<open>(\*.*?\*|\n)\<close> at the head of the input: the matched text and the rest.\<close>

fun matchDelimiter :: "jsstring \<Rightarrow> (jsstring \<times> jsstring) option" where
  "matchDelimiter [] = None"
| "matchDelimiter (c # cs) =
     (if c = ASTERISK then
        (case lazyUntilAsterisk cs of
           None \<Rightarrow> None
         | Some (inner, rest) \<Rightarrow> Some (ASTERISK # inner @ [ASTERISK], rest))
      else if c = NEWLINE then Some ([NEWLINE], cs)
      else None)"

lemma lazyUntilAsterisk_length:
  "lazyUntilAsterisk cs = Some (inner, rest) \<Longrightarrow> length rest < length cs"
proof (induction cs arbitrary: inner rest)
  case Nil
  then show ?case by simp
next
  case (Cons c cs)
  then show ?case
    by (fastforce split: if_splits option.splits)
qed

lemma matchDelimiter_length:
  "matchDelimiter s = Some (tok, rest) \<Longrightarrow> length rest < length s"
proof (cases s)
  case Nil
  then show "matchDelimiter s = Some (tok, rest) \<Longrightarrow> length rest < length s" by simp
next
  case (Cons c cs)
  assume "matchDelimiter s = Some (tok, rest)"
  with Cons show "length rest < length s"
    by (auto split: if_splits option.splits dest: lazyUntilAsterisk_length)
qed

text \<open>
  \<^verbatim>\<open>text.split(/(\*.*?\*|\n)/g)\<close> on a non-empty text: the scan tries a match at each
  position; on a match it emits the text collected since the last match, then the captured
  match, and goes on after it; at the end it emits the text collected since the last match.
  The first argument is that collected text.
\<close>

function splitStyled :: "jsstring \<Rightarrow> jsstring \<Rightarrow> jsstring list" where
  "splitStyled pending [] = [pending]"
| "splitStyled pending (c # cs) =
     (case matchDelimiter (c # cs) of
        Some (tok, rest) \<Rightarrow> pending # tok # splitStyled [] rest
      | None \<Rightarrow> splitStyled (pending @ [c]) cs)"
  by pat_completeness auto

termination
proof (relation "measure (\<lambda>(pending, s). length s)")
  show "wf (measure (\<lambda>(pending, s). length s))" by simp
next
  fix pending :: jsstring and c cs x2 x y
  assume "matchDelimiter (c # cs) = Some x2" and "(x, y) = x2"
  then have "matchDelimiter (c # cs) = Some (x, y)" by simp
  then have "length y < length (c # cs)" by (rule matchDelimiter_length)
  then show "(([], y), (pending, c # cs)) \<in> measure (\<lambda>(pending, s). length s)" by simp
next
  fix pending :: jsstring and c cs
  show "((pending @ [c], cs), (pending, c # cs)) \<in> measure (\<lambda>(pending, s). length s)" by simp
qed

record part =
  part_text :: jsstring
  part_isHighlighted :: bool
  part_isNewline :: bool

definition startsWithAsterisk :: "jsstring \<Rightarrow> bool" where
  "startsWithAsterisk p = (case p of [] \<Rightarrow> False | c # _ \<Rightarrow> c = ASTERISK)"

definition endsWithAsterisk :: "jsstring \<Rightarrow> bool" where
  "endsWithAsterisk p = (case rev p of [] \<Rightarrow> False | c # _ \<Rightarrow> c = ASTERISK)"

text \<open>\<^verbatim>\<open>part.slice(1, -1)\<close>: from index 1 to the last index exclusive; empty when the part has fewer than three code units.\<close>

definition slice_1_m1 :: "jsstring \<Rightarrow> jsstring" where
  "slice_1_m1 p = take (length p - 2) (drop 1 p)"

definition toPart :: "jsstring \<Rightarrow> part" where
  "toPart p =
     (if p = [NEWLINE] then \<lparr>part_text = [], part_isHighlighted = False, part_isNewline = True\<rparr>
      else if startsWithAsterisk p \<and> endsWithAsterisk p then
        \<lparr>part_text = slice_1_m1 p, part_isHighlighted = True, part_isNewline = False\<rparr>
      else \<lparr>part_text = p, part_isHighlighted = False, part_isNewline = False\<rparr>)"

definition parseStyledText :: "jsstring \<Rightarrow> part list" where
  "parseStyledText text =
     (if text = [] then []
      else map toPart (filter (\<lambda>p. p \<noteq> []) (splitStyled [] text)))"

section \<open>Styles, fonts and the drawing context\<close>

datatype TextAlign = TA_left | TA_center | TA_right

datatype VerticalAlign = VA_top | VA_center | VA_bottom

datatype AspectRatio = AR_1_1 | AR_4_5

record ShadowState =
  shadow_enabled :: bool
  shadow_color :: jsstring
  blur :: real
  offsetX :: real
  offsetY :: real

record StyleState =
  fontSize :: real
  color :: jsstring
  fontFamily :: jsstring
  textAlign :: TextAlign
  shadow :: ShadowState
  highlightColor :: jsstring

text \<open>
  The value assigned to \<^verbatim>\<open>ctx.font\<close>, \<^verbatim>\<open>`bold ${size}px ${family}`\<close> or
  \<^verbatim>\<open>`normal ${size}px ${family}`\<close>, kept as its three components.
\<close>

datatype FontWeight = FW_normal | FW_bold

record font =
  font_weight :: FontWeight
  font_size :: real
  font_family :: jsstring

text \<open>
  What the code reads of an image element once its load has settled. An image element
  is known by its source and by how the load settled: \<open>None\<close> is \<^verbatim>\<open>onerror\<close>.
\<close>

record image =
  naturalWidth :: real
  img_width :: real
  img_height :: real

text \<open>Every interaction with the 2D context, in the order the code performs it.\<close>

datatype ctxop =
    SetFont font
  | SetFillStyle jsstring
  | SetGlobalAlpha real
  | SetTextBaseline jsstring
  | SetShadowColor jsstring
  | SetShadowBlur real
  | SetShadowOffsetX real
  | SetShadowOffsetY real
  | DrawImage jsstring "image option" real real real real
  | FillRect real real real real
  | FillText jsstring real real
  | BeginPath
  | RoundRect "real option" real "real option" real real
  | Rect "real option" real "real option" real
  | Fill

text \<open>
  The context as the layout code reads it: the current font (read by
  \<^verbatim>\<open>measureText\<close>), its canvas, and the log of operations.
\<close>

record canvas =
  canvas_width :: int
  canvas_height :: int

record ctx2d =
  ctx_font :: font
  ctx_canvas :: canvas
  ops :: "ctxop list"

definition setFont :: "font \<Rightarrow> ctx2d \<Rightarrow> ctx2d" where
  "setFont f ctx = ctx\<lparr>ctx_font := f, ops := ops ctx @ [SetFont f]\<rparr>"

definition emit :: "ctxop \<Rightarrow> ctx2d \<Rightarrow> ctx2d" where
  "emit op ctx = ctx\<lparr>ops := ops ctx @ [op]\<rparr>"

text \<open>
  The measurement provider: \<^verbatim>\<open>ctx.measureText(s).width\<close> is a function of the
  context's current font and the text.
\<close>

type_synonym measurer = "font \<Rightarrow> jsstring \<Rightarrow> real"

definition measureText :: "measurer \<Rightarrow> ctx2d \<Rightarrow> jsstring \<Rightarrow> real" where
  "measureText mt ctx s = mt (ctx_font ctx) s"

section \<open>Text layout engine: \<^verbatim>\<open>getWrappedStyledTextMetrics\<close>\<close>

record fragment =
  frag_text :: jsstring
  frag_isHighlighted :: bool

text \<open>The three variables the loops update.\<close>

record wrapAcc =
  acc_lines :: "fragment list list"
  currentLine :: "fragment list"
  currentLineWidth :: real

definition flushLine :: "wrapAcc \<Rightarrow> wrapAcc" where
  "flushLine acc = \<lparr>acc_lines = acc_lines acc @ [currentLine acc], currentLine = [], currentLineWidth = 0\<rparr>"

text \<open>
  The inner loop over \<^verbatim>\<open>words\<close>, from index \<open>i\<close> on: the list holds
  \<^verbatim>\<open>words[i..]\<close>, so \<^verbatim>\<open>i < words.length - 1\<close> says that more words follow.
\<close>

fun wrapWords :: "measurer \<Rightarrow> ctx2d \<Rightarrow> real \<Rightarrow> bool \<Rightarrow> jsstring list \<Rightarrow> wrapAcc \<Rightarrow> wrapAcc" where
  "wrapWords mt ctx maxWidth hl [] acc = acc"
| "wrapWords mt ctx maxWidth hl (word # later) acc =
     (if word = [] then wrapWords mt ctx maxWidth hl later acc
      else
        let wordWithSpace = word @ (if later \<noteq> [] then [SPACE] else []);
            wordWidth = measureText mt ctx wordWithSpace;
            acc1 = (if currentLineWidth acc + wordWidth > maxWidth \<and> currentLine acc \<noteq> []
                    then flushLine acc else acc);
            acc2 = acc1\<lparr>currentLine := currentLine acc1 @
                           [\<lparr>frag_text = wordWithSpace, frag_isHighlighted = hl\<rparr>],
                         currentLineWidth := currentLineWidth acc1 + wordWidth\<rparr>
        in wrapWords mt ctx maxWidth hl later acc2)"

text \<open>The body of the outer loop, for one parsed part.\<close>

definition wrapPart :: "measurer \<Rightarrow> ctx2d \<Rightarrow> real \<Rightarrow> part \<Rightarrow> wrapAcc \<Rightarrow> wrapAcc" where
  "wrapPart mt ctx maxWidth p acc =
     (if part_isNewline p then
        \<lparr>acc_lines = (if currentLine acc \<noteq> [] then acc_lines acc @ [currentLine acc] else acc_lines acc) @ [[]],
         currentLine = [], currentLineWidth = 0\<rparr>
      else wrapWords mt ctx maxWidth (part_isHighlighted p) (splitOn SPACE (part_text p)) acc)"

fun wrapParts :: "measurer \<Rightarrow> ctx2d \<Rightarrow> real \<Rightarrow> part list \<Rightarrow> wrapAcc \<Rightarrow> wrapAcc" where
  "wrapParts mt ctx maxWidth [] acc = acc"
| "wrapParts mt ctx maxWidth (p # ps) acc = wrapParts mt ctx maxWidth ps (wrapPart mt ctx maxWidth p acc)"

record metrics =
  lines :: "fragment list list"
  height :: real

definition getWrappedStyledTextMetrics ::
  "measurer \<Rightarrow> ctx2d \<Rightarrow> part list \<Rightarrow> StyleState \<Rightarrow> real \<Rightarrow> metrics" where
  "getWrappedStyledTextMetrics mt ctx parsedText style maxWidth =
     (let lineHeight = fontSize style * 1.4;
          acc = wrapParts mt ctx maxWidth parsedText
                  \<lparr>acc_lines = [], currentLine = [], currentLineWidth = 0\<rparr>;
          lines = (if currentLine acc \<noteq> [] then acc_lines acc @ [currentLine acc] else acc_lines acc)
      in \<lparr>lines = lines, height = real (length lines) * lineHeight\<rparr>)"

section \<open>Drawing: \<^verbatim>\<open>drawStyledTextLines\<close>\<close>

definition fullLineWidth :: "measurer \<Rightarrow> ctx2d \<Rightarrow> fragment list \<Rightarrow> real" where
  "fullLineWidth mt ctx line = foldl (\<lambda>acc part. acc + measureText mt ctx (frag_text part)) 0 line"

text \<open>The inner loop over the parts of one line.\<close>

fun drawLineParts :: "measurer \<Rightarrow> StyleState \<Rightarrow> real \<Rightarrow> fragment list \<Rightarrow> real \<Rightarrow> ctx2d \<Rightarrow> ctx2d" where
  "drawLineParts mt style lineY [] currentX ctx = ctx"
| "drawLineParts mt style lineY (part # rest) currentX ctx =
     (let ctx1 = emit (SetFillStyle (if frag_isHighlighted part then highlightColor style else color style)) ctx;
          ctx2 = emit (FillText (frag_text part) currentX lineY) ctx1
      in drawLineParts mt style lineY rest (currentX + measureText mt ctx2 (frag_text part)) ctx2)"

text \<open>The outer loop, from line index \<open>i\<close> on.\<close>

fun drawLinesFrom :: "measurer \<Rightarrow> StyleState \<Rightarrow> real \<Rightarrow> real \<Rightarrow> nat \<Rightarrow> fragment list list \<Rightarrow> ctx2d \<Rightarrow> ctx2d" where
  "drawLinesFrom mt style x y i [] ctx = ctx"
| "drawLinesFrom mt style x y i (line # rest) ctx =
     (let lineHeight = fontSize style * 1.4;
          lineY = y + real i * lineHeight;
          w = fullLineWidth mt ctx line;
          cw = real_of_int (canvas_width (ctx_canvas ctx));
          currentX = (if textAlign style = TA_center then x + (cw - x * 2 - w) / 2
                      else if textAlign style = TA_right then cw - x - w
                      else x)
      in drawLinesFrom mt style x y (Suc i) rest (drawLineParts mt style lineY line currentX ctx))"

definition drawStyledTextLines ::
  "measurer \<Rightarrow> ctx2d \<Rightarrow> fragment list list \<Rightarrow> real \<Rightarrow> real \<Rightarrow> StyleState \<Rightarrow> ctx2d" where
  "drawStyledTextLines mt ctx ls x y style =
     drawLinesFrom mt style x y 0 ls (emit (SetTextBaseline (str ''top'')) ctx)"

section \<open>Slide compositor: \<^verbatim>\<open>createSlideCanvas\<close>\<close>

text \<open>
  The function of \<^verbatim>\<open>utils/canvasGenerator.ts\<close>, whose line numbers are quoted below;
  \<^verbatim>\<open>generateSlideCanvas\<close> in \<^verbatim>\<open>App.tsx\<close> is the same function around the
  component's state. The records are those of \<^verbatim>\<open>types.ts\<close>.
\<close>

record LayoutState =
  verticalAlign :: VerticalAlign
  spacing :: real

record CtaBackgroundState =
  bg_color :: jsstring
  borderRadius :: real
  paddingX :: real
  paddingY :: real

record CtaState =
  cta_enabled :: bool
  cta_text :: jsstring
  cta_style :: StyleState
  cta_background :: CtaBackgroundState

record Slide =
  slide_id :: jsstring
  prompt :: jsstring
  src :: "jsstring option"
  title :: jsstring
  body :: jsstring
  isLoading :: bool
  error :: "jsstring option"
  titleStyle :: StyleState
  bodyStyle :: StyleState
  layoutStyle :: LayoutState
  cta :: CtaState

record ImageOverlay =
  overlay_enabled :: bool
  overlay_color :: jsstring
  opacity :: real

text \<open>
  The browser around the compositor: whether \<^verbatim>\<open>getContext('2d')\<close> gives a context,
  whether the context has \<^verbatim>\<open>roundRect\<close>, the text measurement, how the load of
  an image source settles (\<open>None\<close> is \<^verbatim>\<open>onerror\<close>), and whether
  \<^verbatim>\<open>drawImage\<close> accepts an element whose load failed: the HTML standard has it throw
  an \<^verbatim>\<open>InvalidStateError\<close> for an image in the broken state, and the code calls it
  on the background element without looking at the element first. The awaited font
  loads sit in a \<^verbatim>\<open>try/catch\<close> and change nothing the function computes; every
  awaited load is taken to settle. The other operations of the context are taken to
  accept their arguments (the editor keeps the corner radius between 0 and 50).
\<close>

record env =
  hasContext :: bool
  hasRoundRect :: bool
  drawImageAcceptsBroken :: bool
  env_measure :: measurer
  loadImage :: "jsstring \<Rightarrow> image option"

definition scaleStyle :: "StyleState \<Rightarrow> real \<Rightarrow> StyleState" where
  "scaleStyle style scale =
     style\<lparr>fontSize := fontSize style * scale,
           shadow := (shadow style)\<lparr>blur := blur (shadow style) * scale,
                                     offsetX := offsetX (shadow style) * scale,
                                     offsetY := offsetY (shadow style) * scale\<rparr>\<rparr>"

definition applyShadow :: "ShadowState \<Rightarrow> ctx2d \<Rightarrow> ctx2d" where
  "applyShadow sh ctx =
     (if shadow_enabled sh then
        emit (SetShadowOffsetY (offsetY sh)) (emit (SetShadowOffsetX (offsetX sh))
          (emit (SetShadowBlur (blur sh)) (emit (SetShadowColor (shadow_color sh)) ctx)))
      else
        emit (SetShadowOffsetY 0) (emit (SetShadowOffsetX 0)
          (emit (SetShadowBlur 0) (emit (SetShadowColor (str ''transparent'')) ctx))))"

definition noShadow :: ShadowState where
  "noShadow = \<lparr>shadow_enabled = False, shadow_color = [], blur = 0, offsetX = 0, offsetY = 0\<rparr>"

text \<open>\<^verbatim>\<open>Math.max(...xs)\<close>: with no arguments the result is \<^verbatim>\<open>-Infinity\<close>, written \<open>None\<close>.\<close>

fun Math_max :: "real list \<Rightarrow> real option" where
  "Math_max [] = None"
| "Math_max (x # xs) = Some (fold max xs x)"

definition boldFont :: "StyleState \<Rightarrow> font" where
  "boldFont st = \<lparr>font_weight = FW_bold, font_size = fontSize st, font_family = fontFamily st\<rparr>"

definition normalFont :: "StyleState \<Rightarrow> font" where
  "normalFont st = \<lparr>font_weight = FW_normal, font_size = fontSize st, font_family = fontFamily st\<rparr>"

text \<open>The constants of the function body.\<close>

definition outputSize :: int where "outputSize = 1080"

definition logoPadding :: real where "logoPadding = real_of_int outputSize * 0.04"

definition padding :: real where "padding = real_of_int outputSize * 0.07"

definition contentWidth :: real where "contentWidth = real_of_int outputSize - (padding * 2)"

definition newCanvas :: "AspectRatio \<Rightarrow> canvas" where
  "newCanvas aspectRatio =
     \<lparr>canvas_width = outputSize,
      canvas_height = (if aspectRatio = AR_1_1 then outputSize
                       else round (real_of_int outputSize * (4 / 3)))\<rparr>"

text \<open>Source lines 97 to 109: the scale and everything scaled by it.\<close>

record scaled =
  scaledTitleStyle :: StyleState
  scaledBodyStyle :: StyleState
  scaledCtaStyle :: StyleState
  scaledCtaBg :: CtaBackgroundState
  scaledSpacing :: real
  ctaMarginTop :: real

definition scaleSlide :: "Slide \<Rightarrow> real \<Rightarrow> scaled" where
  "scaleSlide slide previewWidth =
     (let scale = real_of_int outputSize / previewWidth
      in \<lparr>scaledTitleStyle = scaleStyle (titleStyle slide) scale,
          scaledBodyStyle = scaleStyle (bodyStyle slide) scale,
          scaledCtaStyle = scaleStyle (cta_style (cta slide)) scale,
          scaledCtaBg = (cta_background (cta slide))
             \<lparr>borderRadius := borderRadius (cta_background (cta slide)) * scale,
              paddingX := paddingX (cta_background (cta slide)) * scale,
              paddingY := paddingY (cta_background (cta slide)) * scale\<rparr>,
          scaledSpacing = spacing (layoutStyle slide) * scale,
          ctaMarginTop = 16 * scale\<rparr>)"

text \<open>Source lines 131 to 138: background and overlay.\<close>

definition drawBackgroundAndOverlay :: "env \<Rightarrow> jsstring \<Rightarrow> ImageOverlay \<Rightarrow> ctx2d \<Rightarrow> ctx2d" where
  "drawBackgroundAndOverlay e bgSrc imageOverlay ctx =
     (let w = real_of_int (canvas_width (ctx_canvas ctx));
          h = real_of_int (canvas_height (ctx_canvas ctx));
          ctx1 = emit (DrawImage bgSrc (loadImage e bgSrc) 0 0 w h) ctx
      in if overlay_enabled imageOverlay \<and> opacity imageOverlay > 0 then
           emit (SetGlobalAlpha 1) (emit (FillRect 0 0 w h)
             (emit (SetGlobalAlpha (opacity imageOverlay))
               (emit (SetFillStyle (overlay_color imageOverlay)) ctx1)))
         else ctx1)"

text \<open>
  Source lines 140 to 149: the logo. \<^verbatim>\<open>if (logo)\<close> fails for null and for the
  empty string; an element whose load failed has \<^verbatim>\<open>naturalWidth\<close> 0. The result is
  the context and \<^verbatim>\<open>reservedLogoHeight\<close>.
\<close>

definition drawLogo :: "env \<Rightarrow> jsstring option \<Rightarrow> real \<Rightarrow> ctx2d \<Rightarrow> ctx2d \<times> real" where
  "drawLogo e logo logoSize ctx =
     (case logo of
        None \<Rightarrow> (ctx, 0)
      | Some logoSrc \<Rightarrow>
          if logoSrc = [] then (ctx, 0)
          else
            (case loadImage e logoSrc of
               None \<Rightarrow> (ctx, 0)
             | Some logoImage \<Rightarrow>
                 if naturalWidth logoImage > 0 then
                   let actualLogoWidth = real_of_int outputSize * (logoSize / 100);
                       logoAspectRatio = img_width logoImage / img_height logoImage;
                       actualLogoHeight = actualLogoWidth / logoAspectRatio
                   in (emit (DrawImage logoSrc (Some logoImage) logoPadding logoPadding
                               actualLogoWidth actualLogoHeight) ctx,
                       logoPadding + actualLogoHeight)
                 else (ctx, 0)))"

text \<open>Source lines 151 to 191: text metrics and vertical position.\<close>

record textLayout =
  titleMetrics :: metrics
  bodyMetrics :: metrics
  ctaLines :: "fragment list list"
  ctaBlockHeight :: real
  ctaBlockWidth :: "real option"
  totalTextHeight :: real
  startY :: real

definition ctaPresent :: "Slide \<Rightarrow> bool" where
  "ctaPresent slide \<longleftrightarrow> cta_enabled (cta slide) \<and> cta_text (cta slide) \<noteq> []"

definition calculateTextMetrics ::
  "measurer \<Rightarrow> Slide \<Rightarrow> scaled \<Rightarrow> real \<Rightarrow> ctx2d \<Rightarrow> textLayout \<times> ctx2d" where
  "calculateTextMetrics mt slide sc reservedLogoHeight ctx =
     (let ctxT = setFont (boldFont (scaledTitleStyle sc)) ctx;
          parsedTitle = parseStyledText (title slide);
          titleM = getWrappedStyledTextMetrics mt ctxT parsedTitle (scaledTitleStyle sc) contentWidth;
          ctxB = setFont (normalFont (scaledBodyStyle sc)) ctxT;
          parsedBody = parseStyledText (body slide);
          bodyM = getWrappedStyledTextMetrics mt ctxB parsedBody (scaledBodyStyle sc) contentWidth;
          ctxC = (if ctaPresent slide then setFont (boldFont (scaledCtaStyle sc)) ctxB else ctxB);
          ctaM = (if ctaPresent slide then
                    getWrappedStyledTextMetrics mt ctxC (parseStyledText (cta_text (cta slide)))
                      (scaledCtaStyle sc) (contentWidth - paddingX (scaledCtaBg sc) * 2)
                  else \<lparr>lines = [], height = 0\<rparr>);
          ctaH = (if ctaPresent slide then height ctaM + paddingY (scaledCtaBg sc) * 2 else 0);
          ctaW = (if ctaPresent slide then
                    map_option (\<lambda>ctaTextWidth. ctaTextWidth + paddingX (scaledCtaBg sc) * 2)
                      (Math_max (map (\<lambda>line. measureText mt ctxC (concat (map frag_text line))) (lines ctaM)))
                  else Some 0);
          total0 = height titleM + scaledSpacing sc + height bodyM;
          total = (if ctaPresent slide then total0 + (ctaMarginTop sc + ctaH) else total0);
          canvasH = real_of_int (canvas_height (ctx_canvas ctx));
          y0 = (if verticalAlign (layoutStyle slide) = VA_top then
                  (if reservedLogoHeight > 0 then reservedLogoHeight + padding else padding)
                else if verticalAlign (layoutStyle slide) = VA_center then
                  (if (canvasH - total) / 2 < reservedLogoHeight + padding
                   then reservedLogoHeight + padding else (canvasH - total) / 2)
                else canvasH - padding - total)
      in (\<lparr>titleMetrics = titleM, bodyMetrics = bodyM, ctaLines = lines ctaM,
           ctaBlockHeight = ctaH, ctaBlockWidth = ctaW, totalTextHeight = total, startY = y0\<rparr>,
          ctxC))"

text \<open>
  Source lines 207 to 237: title, body, call-to-action pill and text. A pill width of
  \<open>None\<close> makes the pill's x non-finite too for center and right alignment; the call of
  \<^verbatim>\<open>drawStyledTextLines\<close> then has no lines to draw and never reads its x, which is
  passed as 0 here.
\<close>

definition drawAllElements ::
  "env \<Rightarrow> Slide \<Rightarrow> scaled \<Rightarrow> textLayout \<Rightarrow> ctx2d \<Rightarrow> ctx2d" where
  "drawAllElements e slide sc lay ctx =
     (let mt = env_measure e;
          ctx1 = setFont (boldFont (scaledTitleStyle sc)) (applyShadow (shadow (scaledTitleStyle sc)) ctx);
          ctx2 = drawStyledTextLines mt ctx1 (lines (titleMetrics lay)) padding (startY lay) (scaledTitleStyle sc);
          titleBottom = startY lay + height (titleMetrics lay);
          ctx3 = setFont (normalFont (scaledBodyStyle sc)) (applyShadow (shadow (scaledBodyStyle sc)) ctx2);
          ctx4 = drawStyledTextLines mt ctx3 (lines (bodyMetrics lay)) padding (titleBottom + scaledSpacing sc) (scaledBodyStyle sc);
          bodyBottom = titleBottom + scaledSpacing sc + height (bodyMetrics lay);
          ctx5 =
            (if ctaPresent slide then
               let c1 = applyShadow noShadow ctx4;
                   ctaBlockY = bodyBottom + ctaMarginTop sc;
                   cw = real_of_int (canvas_width (ctx_canvas ctx));
                   ctaBlockX =
                     (if textAlign (cta_style (cta slide)) = TA_center then
                        map_option (\<lambda>w. (cw - w) / 2) (ctaBlockWidth lay)
                      else if textAlign (cta_style (cta slide)) = TA_right then
                        map_option (\<lambda>w. cw - padding - w) (ctaBlockWidth lay)
                      else Some padding);
                   c2 = emit BeginPath (emit (SetFillStyle (bg_color (scaledCtaBg sc))) c1);
                   c3 = (if hasRoundRect e then
                           emit (RoundRect ctaBlockX ctaBlockY (ctaBlockWidth lay) (ctaBlockHeight lay)
                                   (borderRadius (scaledCtaBg sc))) c2
                         else emit (Rect ctaBlockX ctaBlockY (ctaBlockWidth lay) (ctaBlockHeight lay)) c2);
                   c4 = setFont (boldFont (scaledCtaStyle sc)) (emit Fill c3)
               in drawStyledTextLines mt c4 (ctaLines lay)
                    (case ctaBlockX of Some x \<Rightarrow> x + paddingX (scaledCtaBg sc) | None \<Rightarrow> 0)
                    (ctaBlockY + paddingY (scaledCtaBg sc)) (scaledCtaStyle sc)
             else ctx4)
      in applyShadow noShadow ctx5)"

text \<open>
  What a call leaves behind: how it completes (it returns a canvas or null, or the
  unguarded \<^verbatim>\<open>drawImage\<close> of a failed background throws), and the operations
  performed on a context. \<^verbatim>\<open>if (!slide.src) return null\<close> returns for null and for
  the empty string.
\<close>

datatype completion = Returns "canvas option" | Throws

record rendering =
  completion :: completion
  performed :: "ctxop list"

definition initialFont :: font where
  "initialFont = \<lparr>font_weight = FW_normal, font_size = 10, font_family = str ''sans-serif''\<rparr>"

definition createSlideCanvas ::
  "env \<Rightarrow> Slide \<Rightarrow> jsstring option \<Rightarrow> real \<Rightarrow> ImageOverlay \<Rightarrow> AspectRatio \<Rightarrow> real \<Rightarrow> rendering" where
  "createSlideCanvas e slide logo logoSize imageOverlay aspectRatio previewWidth =
     (case src slide of
        None \<Rightarrow> \<lparr>completion = Returns None, performed = []\<rparr>
      | Some bgSrc \<Rightarrow>
          if bgSrc = [] then \<lparr>completion = Returns None, performed = []\<rparr>
          else if \<not> hasContext e then \<lparr>completion = Returns None, performed = []\<rparr>
          else if loadImage e bgSrc = None \<and> \<not> drawImageAcceptsBroken e then
            \<lparr>completion = Throws, performed = []\<rparr>
          else
            let cv = newCanvas aspectRatio;
                ctx = \<lparr>ctx_font = initialFont, ctx_canvas = cv, ops = []\<rparr>;
                sc = scaleSlide slide previewWidth;
                ctxBg = drawBackgroundAndOverlay e bgSrc imageOverlay ctx;
                (ctxLogo, reservedLogoHeight) = drawLogo e logo logoSize ctxBg;
                (lay, ctxM) = calculateTextMetrics (env_measure e) slide sc reservedLogoHeight ctxLogo;
                ctxEnd = drawAllElements e slide sc lay ctxM
            in \<lparr>completion = Returns (Some cv), performed = ops ctxEnd\<rparr>)"

section \<open>Highlight toggle: \<^verbatim>\<open>handleApplyHighlight\<close>\<close>

text \<open>\<^verbatim>\<open>s.charAt(i)\<close>: the empty string outside the string.\<close>

definition charAt :: "jsstring \<Rightarrow> int \<Rightarrow> jsstring" where
  "charAt s i = (if 0 \<le> i \<and> i < int (length s) then [s ! nat i] else [])"

text \<open>\<^verbatim>\<open>s.substring(a, b)\<close>: both indices clamped to the string, swapped when out of order.\<close>

definition substring :: "jsstring \<Rightarrow> int \<Rightarrow> int \<Rightarrow> jsstring" where
  "substring s a b =
     (let n = int (length s);
          a1 = min (max a 0) n;
          b1 = min (max b 0) n;
          lo = min a1 b1;
          hi = max a1 b1
      in take (nat (hi - lo)) (drop (nat lo) s))"

definition substringFrom :: "jsstring \<Rightarrow> int \<Rightarrow> jsstring" where
  "substringFrom s a = substring s a (int (length s))"

definition isAlreadyWrapped :: "jsstring \<Rightarrow> int \<Rightarrow> int \<Rightarrow> bool" where
  "isAlreadyWrapped originalText selStart selEnd \<longleftrightarrow>
     charAt originalText (selStart - 1) = [ASTERISK] \<and> charAt originalText selEnd = [ASTERISK]"

text \<open>
  The text the handler stores for a selection from \<open>selStart\<close> to \<open>selEnd\<close>; with an
  empty selection it returns early and the text stays.
\<close>

definition applyHighlight :: "jsstring \<Rightarrow> int \<Rightarrow> int \<Rightarrow> jsstring" where
  "applyHighlight originalText selStart selEnd =
     (if selStart = selEnd then originalText
      else if isAlreadyWrapped originalText selStart selEnd then
        substring originalText 0 (selStart - 1) @ substring originalText selStart selEnd
          @ substringFrom originalText (selEnd + 1)
      else
        substring originalText 0 selStart @ [ASTERISK] @ substring originalText selStart selEnd
          @ [ASTERISK] @ substringFrom originalText selEnd)"

section \<open>What the wrap is measured against\<close>

text \<open>
  The fragments the layout is to place, in the words of the specification: every run
  that is not a break is split on single spaces, empty words are skipped, and every word
  but the last of its run gets its space back. These two definitions are not taken from
  the code; the code is compared with them.
\<close>

fun wordFragments :: "bool \<Rightarrow> jsstring list \<Rightarrow> fragment list" where
  "wordFragments hl [] = []"
| "wordFragments hl (w # ws) =
     (if w = [] then [] else [\<lparr>frag_text = w @ (if ws = [] then [] else [SPACE]), frag_isHighlighted = hl\<rparr>])
     @ wordFragments hl ws"

definition runFragments :: "part list \<Rightarrow> fragment list" where
  "runFragments parts =
     concat (map (\<lambda>p. if part_isNewline p then []
                       else wordFragments (part_isHighlighted p) (splitOn SPACE (part_text p))) parts)"

section \<open>Auxiliary notions\<close>

text \<open>The lines of the result: the finished lines and the last line when it is not empty.\<close>

definition finishLines :: "wrapAcc \<Rightarrow> fragment list list" where
  "finishLines acc = (if currentLine acc \<noteq> [] then acc_lines acc @ [currentLine acc] else acc_lines acc)"

text \<open>
  A line fits when it has at most one fragment or its width is at most \<open>maxWidth\<close>.
  The invariant of the wrap loops: every finished line and the current line fit, and the
  running width is the width of the current line.
\<close>

definition fits :: "measurer \<Rightarrow> ctx2d \<Rightarrow> real \<Rightarrow> fragment list \<Rightarrow> bool" where
  "fits mt ctx maxWidth l \<longleftrightarrow> (2 \<le> length l \<longrightarrow> fullLineWidth mt ctx l \<le> maxWidth)"

definition wrapInv :: "measurer \<Rightarrow> ctx2d \<Rightarrow> real \<Rightarrow> wrapAcc \<Rightarrow> bool" where
  "wrapInv mt ctx maxWidth acc \<longleftrightarrow>
     (\<forall>l \<in> set (acc_lines acc). fits mt ctx maxWidth l) \<and>
     fits mt ctx maxWidth (currentLine acc) \<and>
     currentLineWidth acc = fullLineWidth mt ctx (currentLine acc)"

text \<open>
  The same state with more finished lines in front.
\<close>

definition addPrefix :: "fragment list list \<Rightarrow> wrapAcc \<Rightarrow> wrapAcc" where
  "addPrefix L acc = \<lparr>acc_lines = L @ acc_lines acc, currentLine = currentLine acc,
                       currentLineWidth = currentLineWidth acc\<rparr>"

text \<open>The y coordinates of the \<^verbatim>\<open>fillText\<close> calls in a log of operations, in order.\<close>

definition fillTextYs :: "ctxop list \<Rightarrow> real list" where
  "fillTextYs os = concat (map (\<lambda>op. case op of FillText t x y \<Rightarrow> [y] | _ \<Rightarrow> []) os)"

text \<open>
  The layout \<^verbatim>\<open>createSlideCanvas\<close> computes for a slide at a preview width, and a
  slide with its call-to-action switched on or off.
\<close>

definition layoutOf :: "measurer \<Rightarrow> Slide \<Rightarrow> real \<Rightarrow> real \<Rightarrow> ctx2d \<Rightarrow> textLayout" where
  "layoutOf mt slide previewWidth reservedLogoHeight ctx =
     fst (calculateTextMetrics mt slide (scaleSlide slide previewWidth) reservedLogoHeight ctx)"

definition withCta :: "bool \<Rightarrow> Slide \<Rightarrow> Slide" where
  "withCta on slide = slide\<lparr>cta := (cta slide)\<lparr>cta_enabled := on\<rparr>\<rparr>"

section \<open>Example inputs\<close>

definition exampleMeasure :: measurer where
  "exampleMeasure = (\<lambda>f s. real (length s))"

definition exampleCtx :: ctx2d where
  "exampleCtx = \<lparr>ctx_font = initialFont, ctx_canvas = newCanvas AR_1_1, ops = []\<rparr>"

definition exampleStyle :: StyleState where
  "exampleStyle =
     \<lparr>fontSize = 10, color = str ''#FFFFFF'', fontFamily = str ''Inter, sans-serif'',
      textAlign = TA_left,
      shadow = \<lparr>shadow_enabled = True, shadow_color = str ''#000000'', blur = 4, offsetX = 2, offsetY = 2\<rparr>,
      highlightColor = str ''#FFD700''\<rparr>"

definition exampleEnv :: env where
  "exampleEnv =
     \<lparr>hasContext = True, hasRoundRect = True, drawImageAcceptsBroken = False,
      env_measure = exampleMeasure,
      loadImage = (\<lambda>s. if s = str ''blob:bg'' then Some \<lparr>naturalWidth = 1024, img_width = 1024, img_height = 1024\<rparr>
                       else if s = str ''blob:logo'' then Some \<lparr>naturalWidth = 200, img_width = 200, img_height = 100\<rparr>
                       else None)\<rparr>"

definition exampleCta :: CtaState where
  "exampleCta =
     \<lparr>cta_enabled = True, cta_text = str ''Shop Now'', cta_style = exampleStyle,
      cta_background = \<lparr>bg_color = str ''#2563EB'', borderRadius = 8, paddingX = 16, paddingY = 8\<rparr>\<rparr>"

definition exampleSlide :: Slide where
  "exampleSlide =
     \<lparr>slide_id = str ''slide-1'', prompt = str ''a red sunset'', src = Some (str ''blob:bg''),
      title = str ''The Power of *Red*'', body = str ''A\<newline>B'', isLoading = False, error = None,
      titleStyle = exampleStyle, bodyStyle = exampleStyle,
      layoutStyle = \<lparr>verticalAlign = VA_bottom, spacing = 12\<rparr>,
      cta = exampleCta\<rparr>"

definition exampleOverlay :: ImageOverlay where
  "exampleOverlay = \<lparr>overlay_enabled = True, overlay_color = str ''#000000'', opacity = 0.3\<rparr>"

definition spacesSlide :: Slide where
  "spacesSlide = exampleSlide\<lparr>cta := exampleCta\<lparr>cta_text := str ''  ''\<rparr>\<rparr>"

section \<open>Invariants of the wrap loops\<close>

lemma foldl_add_sum_list:
  "foldl (\<lambda>acc x. acc + f x) (a::real) xs = a + sum_list (map f xs)"
  by (induction xs arbitrary: a) simp_all

lemma fullLineWidth_sum_list:
  "fullLineWidth mt ctx l = sum_list (map (\<lambda>f. measureText mt ctx (frag_text f)) l)"
  by (simp add: fullLineWidth_def foldl_add_sum_list)

lemma wrapWords_step:
  "w \<noteq> [] \<Longrightarrow> wrapWords mt ctx maxWidth hl (w # ws) acc =
     wrapWords mt ctx maxWidth hl ws
       ((if currentLineWidth acc + measureText mt ctx (w @ (if ws \<noteq> [] then [SPACE] else [])) > maxWidth
            \<and> currentLine acc \<noteq> [] then flushLine acc else acc)
        \<lparr>currentLine := currentLine (if currentLineWidth acc + measureText mt ctx (w @ (if ws \<noteq> [] then [SPACE] else [])) > maxWidth
            \<and> currentLine acc \<noteq> [] then flushLine acc else acc)
              @ [\<lparr>frag_text = w @ (if ws \<noteq> [] then [SPACE] else []), frag_isHighlighted = hl\<rparr>],
          currentLineWidth := currentLineWidth (if currentLineWidth acc + measureText mt ctx (w @ (if ws \<noteq> [] then [SPACE] else [])) > maxWidth
            \<and> currentLine acc \<noteq> [] then flushLine acc else acc)
              + measureText mt ctx (w @ (if ws \<noteq> [] then [SPACE] else []))\<rparr>)"
  by (simp add: Let_def)

lemma wrapWords_inv:
  "wrapInv mt ctx maxWidth acc \<Longrightarrow> wrapInv mt ctx maxWidth (wrapWords mt ctx maxWidth hl ws acc)"
proof (induction ws arbitrary: acc)
  case Nil
  then show ?case by simp
next
  case (Cons w ws)
  show ?case
  proof (cases "w = []")
    case True
    with Cons show ?thesis by simp
  next
    case False
    show ?thesis
      unfolding wrapWords_step [OF False]
      by (rule Cons.IH)
         (use Cons.prems in \<open>auto simp: wrapInv_def fits_def fullLineWidth_sum_list flushLine_def\<close>)
  qed
qed

lemma wrapPart_inv:
  "wrapInv mt ctx maxWidth acc \<Longrightarrow> wrapInv mt ctx maxWidth (wrapPart mt ctx maxWidth p acc)"
  by (auto simp: wrapPart_def wrapWords_inv) (auto simp: wrapInv_def fits_def fullLineWidth_def)

lemma wrapParts_inv:
  "wrapInv mt ctx maxWidth acc \<Longrightarrow> wrapInv mt ctx maxWidth (wrapParts mt ctx maxWidth ps acc)"
  by (induction ps arbitrary: acc) (simp_all add: wrapPart_inv)

lemma lines_getWrapped:
  "lines (getWrappedStyledTextMetrics mt ctx ps style maxWidth) =
     finishLines (wrapParts mt ctx maxWidth ps \<lparr>acc_lines = [], currentLine = [], currentLineWidth = 0\<rparr>)"
  by (simp add: getWrappedStyledTextMetrics_def finishLines_def Let_def)

lemma wrapInv_finish:
  "wrapInv mt ctx maxWidth acc \<Longrightarrow> l \<in> set (finishLines acc) \<Longrightarrow> fits mt ctx maxWidth l"
  by (auto simp: wrapInv_def finishLines_def split: if_splits)

lemma wrap_fits:
  "l \<in> set (lines (getWrappedStyledTextMetrics mt ctx ps style maxWidth)) \<Longrightarrow> fits mt ctx maxWidth l"
  unfolding lines_getWrapped
  by (rule wrapInv_finish [OF wrapParts_inv]) (simp_all add: wrapInv_def fits_def fullLineWidth_def)

lemma wrapWords_concat:
  "concat (finishLines (wrapWords mt ctx maxWidth hl ws acc)) = concat (finishLines acc) @ wordFragments hl ws"
proof (induction ws arbitrary: acc)
  case Nil
  then show ?case by simp
next
  case (Cons w ws)
  show ?case
  proof (cases "w = []")
    case True
    with Cons show ?thesis by simp
  next
    case False
    show ?thesis
      unfolding wrapWords_step [OF False] Cons.IH
      using False by (auto simp: finishLines_def flushLine_def)
  qed
qed

lemma wrapPart_concat:
  "concat (finishLines (wrapPart mt ctx maxWidth p acc)) = concat (finishLines acc) @ runFragments [p]"
  by (simp add: wrapPart_def wrapWords_concat runFragments_def) (simp add: finishLines_def)

lemma runFragments_Cons: "runFragments (p # ps) = runFragments [p] @ runFragments ps"
  by (simp add: runFragments_def)

lemma wrapParts_concat:
  "concat (finishLines (wrapParts mt ctx maxWidth ps acc)) = concat (finishLines acc) @ runFragments ps"
proof (induction ps arbitrary: acc)
  case Nil
  then show ?case by (simp add: runFragments_def)
next
  case (Cons p ps)
  show ?case
    by (simp add: Cons.IH wrapPart_concat) (simp add: runFragments_Cons [of p ps])
qed

lemma wrap_concat:
  "concat (lines (getWrappedStyledTextMetrics mt ctx ps style maxWidth)) = runFragments ps"
  unfolding lines_getWrapped wrapParts_concat by (simp add: finishLines_def)

lemma overwide_alone:
  assumes nonneg: "\<forall>s. 0 \<le> measureText mt ctx s"
    and fit: "fits mt ctx maxWidth l"
    and f: "f \<in> set l" and wide: "maxWidth < measureText mt ctx (frag_text f)"
  shows "l = [f]"
proof -
  have ge: "measureText mt ctx (frag_text f) \<le> fullLineWidth mt ctx l"
    unfolding fullLineWidth_sum_list
    by (rule member_le_sum_list) (use nonneg f in auto)
  then have "\<not> 2 \<le> length l" using fit wide by (auto simp: fits_def)
  then have "length l \<le> 1" by simp
  with f show ?thesis by (cases l) auto
qed

lemma wrapWords_prefix:
  "wrapWords mt ctx maxWidth hl ws (addPrefix L acc) = addPrefix L (wrapWords mt ctx maxWidth hl ws acc)"
proof (induction ws arbitrary: acc)
  case Nil
  then show ?case by simp
next
  case (Cons w ws)
  show ?case
  proof (cases "w = []")
    case True
    with Cons show ?thesis by simp
  next
    case False
    let ?ww = "measureText mt ctx (w @ (if ws \<noteq> [] then [SPACE] else []))"
    let ?f = "\<lparr>frag_text = w @ (if ws \<noteq> [] then [SPACE] else []), frag_isHighlighted = hl\<rparr>"
    let ?next = "\<lambda>a. (if currentLineWidth a + ?ww > maxWidth \<and> currentLine a \<noteq> [] then flushLine a else a)
        \<lparr>currentLine := currentLine (if currentLineWidth a + ?ww > maxWidth \<and> currentLine a \<noteq> [] then flushLine a else a) @ [?f],
          currentLineWidth := currentLineWidth (if currentLineWidth a + ?ww > maxWidth \<and> currentLine a \<noteq> [] then flushLine a else a) + ?ww\<rparr>"
    have eq: "?next (addPrefix L acc) = addPrefix L (?next acc)"
      by (simp add: addPrefix_def flushLine_def)
    have "wrapWords mt ctx maxWidth hl (w # ws) (addPrefix L acc) =
          wrapWords mt ctx maxWidth hl ws (?next (addPrefix L acc))"
      by (rule wrapWords_step [OF False])
    also have "\<dots> = wrapWords mt ctx maxWidth hl ws (addPrefix L (?next acc))"
      by (simp only: eq)
    also have "\<dots> = addPrefix L (wrapWords mt ctx maxWidth hl ws (?next acc))"
      by (rule Cons.IH)
    also have "wrapWords mt ctx maxWidth hl ws (?next acc) = wrapWords mt ctx maxWidth hl (w # ws) acc"
      by (rule wrapWords_step [OF False, symmetric])
    finally show ?thesis .
  qed
qed

lemma wrapPart_prefix:
  "wrapPart mt ctx maxWidth p (addPrefix L acc) = addPrefix L (wrapPart mt ctx maxWidth p acc)"
  by (simp add: wrapPart_def wrapWords_prefix) (simp add: addPrefix_def)

lemma wrapParts_prefix:
  "wrapParts mt ctx maxWidth ps (addPrefix L acc) = addPrefix L (wrapParts mt ctx maxWidth ps acc)"
  by (induction ps arbitrary: acc) (simp_all add: wrapPart_prefix)

lemma wrapParts_append:
  "wrapParts mt ctx maxWidth (ps @ qs) acc = wrapParts mt ctx maxWidth qs (wrapParts mt ctx maxWidth ps acc)"
  by (induction ps arbitrary: acc) simp_all

lemma wrapPart_newline:
  "part_isNewline p \<Longrightarrow> wrapPart mt ctx maxWidth p acc =
     addPrefix (finishLines acc @ [[]]) \<lparr>acc_lines = [], currentLine = [], currentLineWidth = 0\<rparr>"
  by (simp add: wrapPart_def finishLines_def addPrefix_def)

lemma finishLines_prefix:
  "finishLines (addPrefix L acc) = L @ finishLines acc"
  by (simp add: finishLines_def addPrefix_def)

lemma wrap_break:
  assumes "part_isNewline p"
  shows "lines (getWrappedStyledTextMetrics mt ctx (pre @ [p] @ post) style maxWidth) =
         lines (getWrappedStyledTextMetrics mt ctx pre style maxWidth) @ [[]] @
         lines (getWrappedStyledTextMetrics mt ctx post style maxWidth)"
proof -
  let ?init = "\<lparr>acc_lines = [], currentLine = [], currentLineWidth = 0\<rparr>"
  let ?a = "wrapParts mt ctx maxWidth pre ?init"
  let ?b = "wrapParts mt ctx maxWidth post ?init"
  have "wrapParts mt ctx maxWidth (pre @ [p] @ post) ?init =
        wrapParts mt ctx maxWidth post (wrapPart mt ctx maxWidth p ?a)"
    by (simp add: wrapParts_append)
  also have "\<dots> = wrapParts mt ctx maxWidth post (addPrefix (finishLines ?a @ [[]]) ?init)"
    by (simp only: wrapPart_newline [OF assms])
  also have "\<dots> = addPrefix (finishLines ?a @ [[]]) ?b"
    by (rule wrapParts_prefix)
  finally have "finishLines (wrapParts mt ctx maxWidth (pre @ [p] @ post) ?init) =
     (finishLines ?a @ [[]]) @ finishLines ?b"
    by (simp only: finishLines_prefix)
  then show ?thesis by (simp only: lines_getWrapped append_assoc)
qed

lemma wrap_height:
  "height (getWrappedStyledTextMetrics mt ctx parsedText style maxWidth) =
     real (length (lines (getWrappedStyledTextMetrics mt ctx parsedText style maxWidth))) * (fontSize style * 1.4)"
  by (simp add: getWrappedStyledTextMetrics_def Let_def)

lemmas parse_simps =
  parseStyledText_def toPart_def startsWithAsterisk_def endsWithAsterisk_def slice_1_m1_def
  isLineTerminator_def

lemmas wrap_simps = getWrappedStyledTextMetrics_def wrapPart_def flushLine_def measureText_def Let_def

section \<open>Where the drawn lines sit\<close>

lemma fillTextYs_append: "fillTextYs (a @ b) = fillTextYs a @ fillTextYs b"
  by (simp add: fillTextYs_def)

lemma drawLineParts_ys:
  "fillTextYs (ops (drawLineParts mt style lineY ps cx ctx)) = fillTextYs (ops ctx) @ replicate (length ps) lineY"
proof (induction ps arbitrary: cx ctx)
  case Nil
  then show ?case by simp
next
  case (Cons p ps)
  show ?case
    by (simp add: Cons.IH Let_def emit_def fillTextYs_append replicate_append_same)
       (simp add: fillTextYs_def)
qed

lemma drawLinesFrom_ys:
  "fillTextYs (ops (drawLinesFrom mt style x y i ls ctx)) =
     fillTextYs (ops ctx) @
     concat (map (\<lambda>k. replicate (length (ls ! k)) (y + real (i + k) * (fontSize style * 1.4))) [0..<length ls])"
proof (induction ls arbitrary: i ctx)
  case Nil
  then show ?case by simp
next
  case (Cons l ls)
  have idx: "[0..<length (l # ls)] = 0 # map Suc [0..<length ls]"
    by (simp add: upt_conv_Cons map_Suc_upt del: upt_Suc)
  show ?case
    unfolding idx
    by (simp add: Cons.IH Let_def drawLineParts_ys comp_def add.assoc add.left_commute del: upt_Suc)
qed

lemma drawStyledTextLines_ys:
  "fillTextYs (ops (drawStyledTextLines mt ctx ls x y style)) =
     fillTextYs (ops ctx) @
     concat (map (\<lambda>i. replicate (length (ls ! i)) (y + real i * (fontSize style * 1.4))) [0..<length ls])"
  by (simp add: drawStyledTextLines_def drawLinesFrom_ys emit_def fillTextYs_append) (simp add: fillTextYs_def)

section \<open>Selections as three pieces of the text\<close>

text \<open>
  A selection from \<open>selStart\<close> to \<open>selEnd\<close> inside a text cuts it into the part
  before, the selected part and the part after; the string operations of the handler
  are read off these pieces.
\<close>

lemma substring_mid:
  "substring (A @ M @ B) (int (length A)) (int (length A) + int (length M)) = M"
proof -
  have "min (max (int (length A)) 0) (int (length (A @ M @ B))) = int (length A)" by simp
  moreover have "min (max (int (length A) + int (length M)) 0) (int (length (A @ M @ B))) = int (length A) + int (length M)" by simp
  ultimately show ?thesis
    unfolding substring_def Let_def by simp
qed

lemma substring_prefix:
  "substring (A @ B) 0 (int (length A)) = A"
  using substring_mid [of "[]" A B] by simp

lemma substringFrom_suffix:
  "substringFrom (A @ B) (int (length A)) = B"
  using substring_mid [of A B "[]"] by (simp add: substringFrom_def)

lemma charAt_after:
  "charAt (A @ c # B) (int (length A)) = [c]"
  by (simp add: charAt_def)

lemma split_range:
  assumes "0 \<le> s" "s < e" "e \<le> int (length t)"
  obtains A M B where "t = A @ M @ B" "int (length A) = s" "int (length A) + int (length M) = e" "M \<noteq> []"
proof
  let ?A = "take (nat s) t" and ?M = "take (nat (e - s)) (drop (nat s) t)" and ?B = "drop (nat e) t"
  show "t = ?A @ ?M @ ?B"
  proof -
    have "nat (e - s) + nat s = nat e" using assms by simp
    then have "drop (nat (e - s)) (drop (nat s) t) = ?B" by (simp only: drop_drop)
    then have "drop (nat s) t = ?M @ ?B"
      using append_take_drop_id [of "nat (e - s)" "drop (nat s) t"] by simp
    then have "?A @ drop (nat s) t = ?A @ ?M @ ?B" by simp
    then show ?thesis by simp
  qed
  show "int (length ?A) = s" using assms by simp
  show "int (length ?A) + int (length ?M) = e" using assms by simp
  show "?M \<noteq> []" using assms by auto
qed

lemma split_range_eq:
  assumes "0 \<le> s" "s < e" "e \<le> int (length t)"
  shows "t = take (nat s) t @ take (nat (e - s)) (drop (nat s) t) @ drop (nat e) t"
proof -
  have "nat (e - s) + nat s = nat e" using assms by simp
  then have "drop (nat (e - s)) (drop (nat s) t) = drop (nat e) t" by (simp only: drop_drop)
  then have "drop (nat s) t = take (nat (e - s)) (drop (nat s) t) @ drop (nat e) t"
    using append_take_drop_id [of "nat (e - s)" "drop (nat s) t"] by simp
  then have "take (nat s) t @ drop (nat s) t = take (nat s) t @ take (nat (e - s)) (drop (nat s) t) @ drop (nat e) t" by simp
  then show ?thesis by simp
qed

lemma wrap_range:
  assumes "M \<noteq> []" "\<not> isAlreadyWrapped (A @ M @ B) (int (length A)) (int (length A) + int (length M))"
  shows "applyHighlight (A @ M @ B) (int (length A)) (int (length A) + int (length M)) = A @ [ASTERISK] @ M @ [ASTERISK] @ B"
proof -
  have ne: "int (length A) \<noteq> int (length A) + int (length M)" using assms(1) by simp
  have mid: "substring (A @ M @ B) (int (length A)) (int (length A) + int (length M)) = M"
    by (rule substring_mid)
  have pre: "substring (A @ M @ B) 0 (int (length A)) = A" by (rule substring_prefix)
  have suf: "substringFrom (A @ M @ B) (int (length A) + int (length M)) = B"
    using substringFrom_suffix [of "A @ M" B] by simp
  show ?thesis
    using ne assms(2) by (simp add: applyHighlight_def mid pre suf)
qed

lemma unwrap_range:
  assumes "M \<noteq> []"
  shows "applyHighlight (A @ [ASTERISK] @ M @ [ASTERISK] @ B) (int (length A) + 1) (int (length A) + int (length M) + 1) = A @ M @ B"
proof -
  let ?N = "A @ [ASTERISK] @ M @ [ASTERISK] @ B"
  have c1: "charAt ?N (int (length A) + 1 - 1) = [ASTERISK]"
    using charAt_after [of A ASTERISK "M @ [ASTERISK] @ B"] by simp
  have c2: "charAt ?N (int (length A) + int (length M) + 1) = [ASTERISK]"
    using charAt_after [of "A @ [ASTERISK] @ M" ASTERISK B] by (simp add: add.commute add.left_commute)
  have w: "isAlreadyWrapped ?N (int (length A) + 1) (int (length A) + int (length M) + 1)"
    unfolding isAlreadyWrapped_def using c1 c2 by simp
  have p2: "substring ?N 0 (int (length A) + 1 - 1) = A"
    using substring_prefix [of A "[ASTERISK] @ M @ [ASTERISK] @ B"] by simp
  have m2: "substring ?N (int (length A) + 1) (int (length A) + int (length M) + 1) = M"
    using substring_mid [of "A @ [ASTERISK]" M "[ASTERISK] @ B"] by (simp add: add.commute add.left_commute)
  have s2: "substringFrom ?N (int (length A) + int (length M) + 1 + 1) = B"
    using substringFrom_suffix [of "A @ [ASTERISK] @ M @ [ASTERISK]" B] by (simp add: add.commute add.left_commute)
  have ne2: "int (length A) + 1 \<noteq> int (length A) + int (length M) + 1" using assms(1) by simp
  show ?thesis
    unfolding applyHighlight_def using ne2 w p2 m2 s2 by simp
qed

lemma isAlreadyWrapped_decompose:
  assumes "isAlreadyWrapped (A @ M @ B) (int (length A)) (int (length A) + int (length M))"
  obtains A' B' where "A = A' @ [ASTERISK]" "B = ASTERISK # B'"
proof -
  from assms have c1: "charAt (A @ M @ B) (int (length A) - 1) = [ASTERISK]"
    and c2: "charAt (A @ M @ B) (int (length A) + int (length M)) = [ASTERISK]"
    by (simp_all add: isAlreadyWrapped_def)
  have "\<exists>A'. A = A' @ [ASTERISK]"
  proof (cases A rule: rev_cases)
    case Nil
    with c1 show ?thesis by (simp add: charAt_def)
  next
    case (snoc A' a)
    have "charAt (A' @ a # (M @ B)) (int (length A')) = [a]" by (rule charAt_after)
    with c1 snoc have "a = ASTERISK" by simp
    with snoc show ?thesis by simp
  qed
  moreover have "\<exists>B'. B = ASTERISK # B'"
  proof (cases B)
    case Nil
    with c2 show ?thesis by (simp add: charAt_def)
  next
    case (Cons b B')
    have "charAt ((A @ M) @ b # B') (int (length (A @ M))) = [b]" by (rule charAt_after)
    with c2 Cons have "b = ASTERISK" by simp
    with Cons show ?thesis by simp
  qed
  ultimately show thesis using that by blast
qed

lemmas highlight_simps = applyHighlight_def isAlreadyWrapped_def charAt_def substring_def substringFrom_def Let_def

section \<open>Images whose load failed\<close>



lemma failed_background_throws:
  "src exampleSlide = Some (str ''blob:bg'')
   \<and> loadImage (exampleEnv\<lparr>loadImage := \<lambda>s. None\<rparr>) (str ''blob:bg'') = None
   \<and> completion (createSlideCanvas (exampleEnv\<lparr>loadImage := \<lambda>s. None\<rparr>) exampleSlide None 15 exampleOverlay AR_1_1 400) =
        Throws"
  by (simp add: createSlideCanvas_def exampleEnv_def exampleSlide_def)

section \<open>A text of spaces\<close>

lemma matchDelimiter_plain:
  "c \<noteq> ASTERISK \<Longrightarrow> c \<noteq> NEWLINE \<Longrightarrow> matchDelimiter (c # cs) = None"
  by simp

lemma splitStyled_no_delimiter:
  "\<forall>c \<in> set t. c \<noteq> ASTERISK \<and> c \<noteq> NEWLINE \<Longrightarrow> splitStyled pending t = [pending @ t]"
proof (induction t arbitrary: pending)
  case Nil
  then show ?case by simp
next
  case (Cons c cs)
  then have "matchDelimiter (c # cs) = None" by (simp add: matchDelimiter_plain)
  then have "splitStyled pending (c # cs) = splitStyled (pending @ [c]) cs" by simp
  also have "\<dots> = [(pending @ [c]) @ cs]" using Cons.prems by (intro Cons.IH) simp
  finally show ?case by simp
qed

lemma parse_spaces:
  assumes "t \<noteq> []" "set t \<subseteq> {SPACE}"
  shows "parseStyledText t = [\<lparr>part_text = t, part_isHighlighted = False, part_isNewline = False\<rparr>]"
proof -
  from assms obtain cs where t: "t = SPACE # cs" by (cases t) auto
  have "\<forall>c \<in> set t. c \<noteq> ASTERISK \<and> c \<noteq> NEWLINE" using assms(2) by auto
  then have "splitStyled [] t = [t]" using splitStyled_no_delimiter [of t "[]"] by simp
  then show ?thesis
    using assms(1) by (simp add: parseStyledText_def toPart_def startsWithAsterisk_def t)
qed

lemma splitOn_spaces:
  "set t \<subseteq> {SPACE} \<Longrightarrow> set (splitOn SPACE t) \<subseteq> {[]}"
  by (induction t) auto

lemma wrapWords_empty_words:
  "set ws \<subseteq> {[]} \<Longrightarrow> wrapWords mt ctx maxWidth hl ws acc = acc"
  by (induction ws) auto

lemma wrap_spaces:
  assumes "t \<noteq> []" "set t \<subseteq> {SPACE}"
  shows "lines (getWrappedStyledTextMetrics mt ctx (parseStyledText t) style maxWidth) = []"
  by (simp add: parse_spaces [OF assms] getWrappedStyledTextMetrics_def wrapPart_def Let_def
        wrapWords_empty_words [OF splitOn_spaces [OF assms(2)]])

lemma drawStyledTextLines_Nil:
  "drawStyledTextLines mt ctx [] x y style = emit (SetTextBaseline (str ''top'')) ctx"
  by (simp add: drawStyledTextLines_def)

lemma calc_cta_spaces:
  assumes "cta_enabled (cta slide)" "cta_text (cta slide) \<noteq> []" "set (cta_text (cta slide)) \<subseteq> {SPACE}"
  shows "ctaLines (fst (calculateTextMetrics mt slide sc r ctx)) = []"
    and "ctaBlockWidth (fst (calculateTextMetrics mt slide sc r ctx)) = None"
  using assms by (simp_all add: calculateTextMetrics_def Let_def ctaPresent_def wrap_spaces)

lemma drawAllElements_cta_spaces:
  assumes "ctaPresent slide" "ctaLines lay = []" "ctaBlockWidth lay = None"
  shows "(if hasRoundRect e
          then RoundRect (if textAlign (cta_style (cta slide)) = TA_center \<or> textAlign (cta_style (cta slide)) = TA_right
                          then None else Some padding)
                 (startY lay + height (titleMetrics lay) + scaledSpacing sc + height (bodyMetrics lay) + ctaMarginTop sc)
                 None (ctaBlockHeight lay) (borderRadius (scaledCtaBg sc))
          else Rect (if textAlign (cta_style (cta slide)) = TA_center \<or> textAlign (cta_style (cta slide)) = TA_right
                          then None else Some padding)
                 (startY lay + height (titleMetrics lay) + scaledSpacing sc + height (bodyMetrics lay) + ctaMarginTop sc)
                 None (ctaBlockHeight lay))
           \<in> set (ops (drawAllElements e slide sc lay ctx))"
  using assms
  by (simp add: drawAllElements_def Let_def drawStyledTextLines_Nil applyShadow_def noShadow_def
        emit_def setFont_def)

section \<open>Evaluating the layout of the example\<close>

lemmas layout_simps = layoutOf_def calculateTextMetrics_def scaleSlide_def ctaPresent_def Let_def
  padding_def contentWidth_def outputSize_def withCta_def

lemmas example_simps = exampleSlide_def exampleCta_def exampleStyle_def exampleEnv_def exampleCtx_def
  exampleMeasure_def exampleOverlay_def

lemma example_cta_block_height:
  "ctaBlockHeight (layoutOf exampleMeasure exampleSlide 400 0 exampleCtx) = 81"
  by (simp add: layout_simps example_simps parse_simps wrap_simps scaleStyle_def)

section \<open>The claims\<close>

text \<open>
  C1. For every sequence of parsed runs, every style, every maximal width and every
  measurement, each line of \<^verbatim>\<open>getWrappedStyledTextMetrics\<close> with two or more
  fragments has a summed fragment width of at most \<open>maxWidth\<close>, the sum being the one
  \<^verbatim>\<open>drawStyledTextLines\<close> computes. Where the measurement gives no negative width,
  a fragment wider than \<open>maxWidth\<close> is the only fragment of its line. The lines, read
  in order, are exactly the words of the runs with their spaces: no word is cut,
  hyphenated, dropped or reordered. The copy of the function in \<^verbatim>\<open>App.tsx\<close> is the
  same statement by statement.
\<close>

theorem wrap_never_exceeds_width:
  "(\<forall>line \<in> set (lines (getWrappedStyledTextMetrics mt ctx parsedText style maxWidth)).
      2 \<le> length line \<longrightarrow> fullLineWidth mt ctx line \<le> maxWidth)
   \<and> ((\<forall>s. 0 \<le> measureText mt ctx s) \<longrightarrow>
       (\<forall>line \<in> set (lines (getWrappedStyledTextMetrics mt ctx parsedText style maxWidth)).
          \<forall>f \<in> set line. maxWidth < measureText mt ctx (frag_text f) \<longrightarrow> line = [f]))
   \<and> concat (lines (getWrappedStyledTextMetrics mt ctx parsedText style maxWidth)) = runFragments parsedText"
proof (intro conjI ballI impI)
  fix line
  assume "line \<in> set (lines (getWrappedStyledTextMetrics mt ctx parsedText style maxWidth))"
    and "2 \<le> length line"
  then show "fullLineWidth mt ctx line \<le> maxWidth"
    using wrap_fits [of line mt ctx parsedText style maxWidth] by (simp add: fits_def)
next
  fix line f
  assume "\<forall>s. 0 \<le> measureText mt ctx s"
    and "line \<in> set (lines (getWrappedStyledTextMetrics mt ctx parsedText style maxWidth))"
    and "f \<in> set line" and "maxWidth < measureText mt ctx (frag_text f)"
  then show "line = [f]"
    using overwide_alone [of mt ctx maxWidth line f] wrap_fits [of line mt ctx parsedText style maxWidth]
    by blast
next
  show "concat (lines (getWrappedStyledTextMetrics mt ctx parsedText style maxWidth)) = runFragments parsedText"
    by (rule wrap_concat)
qed

theorem wrap_never_exceeds_width_witness:
  "lines (getWrappedStyledTextMetrics exampleMeasure exampleCtx
       (parseStyledText (str ''aa bb ccccccc'')) exampleStyle 6) =
     [[\<lparr>frag_text = str ''aa '', frag_isHighlighted = False\<rparr>,
       \<lparr>frag_text = str ''bb '', frag_isHighlighted = False\<rparr>],
      [\<lparr>frag_text = str ''ccccccc'', frag_isHighlighted = False\<rparr>]]
   \<and> fullLineWidth exampleMeasure exampleCtx
       [\<lparr>frag_text = str ''aa '', frag_isHighlighted = False\<rparr>,
        \<lparr>frag_text = str ''bb '', frag_isHighlighted = False\<rparr>] \<le> 6
   \<and> (\<forall>s. 0 \<le> measureText exampleMeasure exampleCtx s)
   \<and> 6 < measureText exampleMeasure exampleCtx (str ''ccccccc'')"
  using wrap_never_exceeds_width [of exampleMeasure exampleCtx
      "parseStyledText (str ''aa bb ccccccc'')" exampleStyle 6]
  by (simp add: parse_simps wrap_simps fullLineWidth_def exampleMeasure_def)




text \<open>
  C3. The claim: an asterisk with no closing asterisk stays, with everything after it,
  inside a plain run. The code does otherwise when the unmatched asterisk is a piece of
  the split by itself: a piece that is the single asterisk both starts and ends with an
  asterisk, so \<^verbatim>\<open>parseStyledText\<close> makes it a highlighted run with empty text,
  and the asterisk is never laid out. This happens for the text that is one asterisk,
  and for an asterisk left over right after a highlighted pair.
\<close>

theorem lone_asterisk_becomes_highlight:
  "parseStyledText (str ''*'') = [\<lparr>part_text = [], part_isHighlighted = True, part_isNewline = False\<rparr>]
   \<and> parseStyledText (str ''*now**'') =
       [\<lparr>part_text = str ''now'', part_isHighlighted = True, part_isNewline = False\<rparr>,
        \<lparr>part_text = [], part_isHighlighted = True, part_isNewline = False\<rparr>]
   \<and> lines (getWrappedStyledTextMetrics mt ctx (parseStyledText (str ''*'')) style maxWidth) = []"
  by (simp add: parse_simps wrap_simps)

text \<open>
  C4. The claim: applying the toggle twice to the same selection restores the text. It
  does not: the handler looks for the asterisks just outside the selection, at
  \<open>selStart - 1\<close> and at \<open>selEnd\<close>, and after the first application the selected
  characters have moved by one. On ab with the selection 0 to 1 the second application
  at 0 to 1 wraps again. Selecting the same characters again does not always restore the
  text either: inside two pairs of asterisks both applications remove a pair.
\<close>

theorem highlight_toggle_same_indices_counterexample:
  "applyHighlight (applyHighlight (str ''ab'') 0 1) 0 1 = str ''***a*b''
   \<and> str ''***a*b'' \<noteq> str ''ab''
   \<and> applyHighlight (str ''**a**'') 2 3 = str ''*a*''
   \<and> applyHighlight (applyHighlight (str ''**a**'') 2 3) 1 2 = str ''a''
   \<and> str ''a'' \<noteq> str ''**a**''"
  by (simp add: highlight_simps)

text \<open>
  C4, as the code has it. For a non-empty selection inside the text: when the selection
  is not enclosed by asterisks, the first application gives the text before the
  selection, an asterisk, the selection, an asterisk and the text after it, and applying
  the toggle to the same characters, now from \<open>selStart + 1\<close> to \<open>selEnd + 1\<close>,
  restores the text; when it is enclosed, the text is the text before the first of the
  two asterisks, that asterisk, the selection, the other asterisk and the text after
  it, the first application gives the same without the two asterisks, and applying the
  toggle to the same characters, now from \<open>selStart - 1\<close> to \<open>selEnd - 1\<close>,
  restores the text unless they are still enclosed.
\<close>

theorem highlight_toggle_round_trip:
  "0 \<le> selStart \<Longrightarrow> selStart < selEnd \<Longrightarrow> selEnd \<le> int (length originalText) \<Longrightarrow>
   (\<not> isAlreadyWrapped originalText selStart selEnd \<longrightarrow>
      applyHighlight originalText selStart selEnd =
        take (nat selStart) originalText @ [ASTERISK]
        @ take (nat (selEnd - selStart)) (drop (nat selStart) originalText) @ [ASTERISK]
        @ drop (nat selEnd) originalText
      \<and> applyHighlight (applyHighlight originalText selStart selEnd) (selStart + 1) (selEnd + 1) = originalText)
   \<and> (isAlreadyWrapped originalText selStart selEnd \<longrightarrow>
      originalText =
        take (nat (selStart - 1)) originalText @ [ASTERISK]
        @ take (nat (selEnd - selStart)) (drop (nat selStart) originalText) @ [ASTERISK]
        @ drop (nat (selEnd + 1)) originalText
      \<and> applyHighlight originalText selStart selEnd =
        take (nat (selStart - 1)) originalText
        @ take (nat (selEnd - selStart)) (drop (nat selStart) originalText)
        @ drop (nat (selEnd + 1)) originalText
      \<and> (\<not> isAlreadyWrapped (applyHighlight originalText selStart selEnd) (selStart - 1) (selEnd - 1) \<longrightarrow>
          applyHighlight (applyHighlight originalText selStart selEnd) (selStart - 1) (selEnd - 1) = originalText))"
proof -
  assume r: "0 \<le> selStart" "selStart < selEnd" "selEnd \<le> int (length originalText)"
  define A where "A = take (nat selStart) originalText"
  define M where "M = take (nat (selEnd - selStart)) (drop (nat selStart) originalText)"
  define B where "B = drop (nat selEnd) originalText"
  have t: "originalText = A @ M @ B"
    unfolding A_def M_def B_def using r by (rule split_range_eq)
  have s: "selStart = int (length A)" using r by (simp add: A_def)
  have e: "selEnd = int (length A) + int (length M)" using r by (simp add: A_def M_def)
  have M: "M \<noteq> []" using r by (auto simp: M_def)
  show ?thesis
  proof (intro conjI impI)
    assume nw: "\<not> isAlreadyWrapped originalText selStart selEnd"
    then have nw': "\<not> isAlreadyWrapped (A @ M @ B) (int (length A)) (int (length A) + int (length M))"
      by (simp add: t s e)
    have w1: "applyHighlight originalText selStart selEnd = A @ [ASTERISK] @ M @ [ASTERISK] @ B"
      unfolding t s e by (rule wrap_range [OF M nw'])
    then show "applyHighlight originalText selStart selEnd =
        take (nat selStart) originalText @ [ASTERISK]
        @ take (nat (selEnd - selStart)) (drop (nat selStart) originalText) @ [ASTERISK]
        @ drop (nat selEnd) originalText"
      by (simp only: A_def M_def B_def)
    show "applyHighlight (applyHighlight originalText selStart selEnd) (selStart + 1) (selEnd + 1) = originalText"
      unfolding w1 unfolding t s e
      using unwrap_range [OF M, of A B] by simp
  next
    assume "isAlreadyWrapped originalText selStart selEnd"
    then have w: "isAlreadyWrapped (A @ M @ B) (int (length A)) (int (length A) + int (length M))"
      by (simp add: t s e)
    from w obtain A' B' where A: "A = A' @ [ASTERISK]" and B: "B = ASTERISK # B'"
      by (rule isAlreadyWrapped_decompose)
    have t': "originalText = A' @ [ASTERISK] @ M @ [ASTERISK] @ B'"
      by (simp add: t A B)
    have lA: "nat (selStart - 1) = length A'" by (simp add: s A)
    have lB: "nat (selEnd + 1) = length (A' @ [ASTERISK] @ M @ [ASTERISK])" by (simp add: e A)
    have A': "take (nat (selStart - 1)) originalText = A'"
      unfolding lA t' by simp
    have B': "drop (nat (selEnd + 1)) originalText = B'"
      unfolding lB t' by simp
    show "originalText =
        take (nat (selStart - 1)) originalText @ [ASTERISK]
        @ take (nat (selEnd - selStart)) (drop (nat selStart) originalText) @ [ASTERISK]
        @ drop (nat (selEnd + 1)) originalText"
      unfolding A' B' M_def [symmetric] by (rule t')
    have un: "applyHighlight originalText selStart selEnd = A' @ M @ B'"
      unfolding t s e
      using unwrap_range [OF M, of A' B'] by (simp add: A B add.commute add.left_commute)
    show "applyHighlight originalText selStart selEnd =
        take (nat (selStart - 1)) originalText
        @ take (nat (selEnd - selStart)) (drop (nat selStart) originalText)
        @ drop (nat (selEnd + 1)) originalText"
      unfolding A' B' M_def [symmetric] by (rule un)
    assume nw: "\<not> isAlreadyWrapped (applyHighlight originalText selStart selEnd) (selStart - 1) (selEnd - 1)"
    have nw': "\<not> isAlreadyWrapped (A' @ M @ B') (int (length A')) (int (length A') + int (length M))"
      using nw unfolding un by (simp add: s e A)
    have "applyHighlight (A' @ M @ B') (int (length A')) (int (length A') + int (length M)) = A @ M @ B"
      using wrap_range [OF M nw'] by (simp add: A B)
    then show "applyHighlight (applyHighlight originalText selStart selEnd) (selStart - 1) (selEnd - 1) = originalText"
      unfolding un unfolding t s e by (simp add: A)
  qed
qed

theorem highlight_toggle_round_trip_witness:
  "(0::int) \<le> 2 \<and> (2::int) < 5 \<and> 5 \<le> int (length (str ''A Red B''))
   \<and> (0::int) \<le> 3 \<and> (3::int) < 6 \<and> 6 \<le> int (length (str ''A *Red* B''))
   \<and> \<not> isAlreadyWrapped (str ''A Red B'') 2 5
   \<and> applyHighlight (str ''A Red B'') 2 5 = str ''A *Red* B''
   \<and> applyHighlight (applyHighlight (str ''A Red B'') 2 5) (2 + 1) (5 + 1) = str ''A Red B''
   \<and> isAlreadyWrapped (str ''A *Red* B'') 3 6
   \<and> applyHighlight (str ''A *Red* B'') 3 6 = str ''A Red B''
   \<and> \<not> isAlreadyWrapped (applyHighlight (str ''A *Red* B'') 3 6) (3 - 1) (6 - 1)
   \<and> applyHighlight (applyHighlight (str ''A *Red* B'') 3 6) (3 - 1) (6 - 1) = str ''A *Red* B''"
  using highlight_toggle_round_trip [of 2 5 "str ''A Red B''"]
    highlight_toggle_round_trip [of 3 6 "str ''A *Red* B''"]
  by (simp add: highlight_simps)

text \<open>
  C5. Without a call-to-action (disabled, or its text empty) the total text height is
  the title height, the scaled spacing and the body height. With one it is larger by
  the scaled top margin, 16 times the scale, plus the pill height. For the vertical
  alignment bottom the start is the canvas height minus the padding minus the total,
  so switching the call-to-action on moves the start up by exactly that amount.
\<close>

theorem cta_term_in_total_height:
  "(\<not> (cta_enabled (cta slide) \<and> cta_text (cta slide) \<noteq> []) \<longrightarrow>
      totalTextHeight (layoutOf mt slide previewWidth r ctx) =
        height (titleMetrics (layoutOf mt slide previewWidth r ctx))
        + spacing (layoutStyle slide) * (1080 / previewWidth)
        + height (bodyMetrics (layoutOf mt slide previewWidth r ctx)))
   \<and> (cta_enabled (cta slide) \<and> cta_text (cta slide) \<noteq> [] \<longrightarrow>
      totalTextHeight (layoutOf mt slide previewWidth r ctx) =
        height (titleMetrics (layoutOf mt slide previewWidth r ctx))
        + spacing (layoutStyle slide) * (1080 / previewWidth)
        + height (bodyMetrics (layoutOf mt slide previewWidth r ctx))
        + (16 * (1080 / previewWidth) + ctaBlockHeight (layoutOf mt slide previewWidth r ctx)))
   \<and> (verticalAlign (layoutStyle slide) = VA_bottom \<longrightarrow>
      startY (layoutOf mt slide previewWidth r ctx) =
        real_of_int (canvas_height (ctx_canvas ctx)) - 1080 * 0.07
        - totalTextHeight (layoutOf mt slide previewWidth r ctx))
   \<and> (cta_text (cta slide) \<noteq> [] \<longrightarrow>
      totalTextHeight (layoutOf mt (withCta True slide) previewWidth r ctx) =
        totalTextHeight (layoutOf mt (withCta False slide) previewWidth r ctx)
        + (16 * (1080 / previewWidth) + ctaBlockHeight (layoutOf mt (withCta True slide) previewWidth r ctx))
      \<and> (verticalAlign (layoutStyle slide) = VA_bottom \<longrightarrow>
          startY (layoutOf mt (withCta True slide) previewWidth r ctx) =
            startY (layoutOf mt (withCta False slide) previewWidth r ctx)
            - (16 * (1080 / previewWidth) + ctaBlockHeight (layoutOf mt (withCta True slide) previewWidth r ctx))))"
proof (intro conjI impI)
  assume "\<not> (cta_enabled (cta slide) \<and> cta_text (cta slide) \<noteq> [])"
  then show "totalTextHeight (layoutOf mt slide previewWidth r ctx) =
        height (titleMetrics (layoutOf mt slide previewWidth r ctx))
        + spacing (layoutStyle slide) * (1080 / previewWidth)
        + height (bodyMetrics (layoutOf mt slide previewWidth r ctx))"
    by (auto simp add: layout_simps)
next
  assume "cta_enabled (cta slide) \<and> cta_text (cta slide) \<noteq> []"
  then show "totalTextHeight (layoutOf mt slide previewWidth r ctx) =
        height (titleMetrics (layoutOf mt slide previewWidth r ctx))
        + spacing (layoutStyle slide) * (1080 / previewWidth)
        + height (bodyMetrics (layoutOf mt slide previewWidth r ctx))
        + (16 * (1080 / previewWidth) + ctaBlockHeight (layoutOf mt slide previewWidth r ctx))"
    by (simp add: layout_simps)
next
  assume "verticalAlign (layoutStyle slide) = VA_bottom"
  then show "startY (layoutOf mt slide previewWidth r ctx) =
        real_of_int (canvas_height (ctx_canvas ctx)) - 1080 * 0.07
        - totalTextHeight (layoutOf mt slide previewWidth r ctx)"
    by (simp add: layout_simps)
next
  assume "cta_text (cta slide) \<noteq> []"
  then show "totalTextHeight (layoutOf mt (withCta True slide) previewWidth r ctx) =
        totalTextHeight (layoutOf mt (withCta False slide) previewWidth r ctx)
        + (16 * (1080 / previewWidth) + ctaBlockHeight (layoutOf mt (withCta True slide) previewWidth r ctx))"
    by (simp add: layout_simps setFont_def)
next
  assume "cta_text (cta slide) \<noteq> []" "verticalAlign (layoutStyle slide) = VA_bottom"
  then show "startY (layoutOf mt (withCta True slide) previewWidth r ctx) =
            startY (layoutOf mt (withCta False slide) previewWidth r ctx)
            - (16 * (1080 / previewWidth) + ctaBlockHeight (layoutOf mt (withCta True slide) previewWidth r ctx))"
    by (simp add: layout_simps setFont_def)
qed

theorem cta_term_in_total_height_witness:
  "cta_enabled (cta exampleSlide) \<and> cta_text (cta exampleSlide) \<noteq> []
   \<and> verticalAlign (layoutStyle exampleSlide) = VA_bottom
   \<and> withCta True exampleSlide = exampleSlide
   \<and> \<not> (cta_enabled (cta (withCta False exampleSlide)) \<and> cta_text (cta (withCta False exampleSlide)) \<noteq> [])
   \<and> ctaBlockHeight (layoutOf exampleMeasure exampleSlide 400 0 exampleCtx) = 81
   \<and> totalTextHeight (layoutOf exampleMeasure (withCta False exampleSlide) 400 0 exampleCtx) =
       height (titleMetrics (layoutOf exampleMeasure (withCta False exampleSlide) 400 0 exampleCtx))
       + 12 * (1080 / 400)
       + height (bodyMetrics (layoutOf exampleMeasure (withCta False exampleSlide) 400 0 exampleCtx))
   \<and> totalTextHeight (layoutOf exampleMeasure exampleSlide 400 0 exampleCtx) =
       totalTextHeight (layoutOf exampleMeasure (withCta False exampleSlide) 400 0 exampleCtx) + (43.2 + 81)
   \<and> startY (layoutOf exampleMeasure exampleSlide 400 0 exampleCtx) =
       startY (layoutOf exampleMeasure (withCta False exampleSlide) 400 0 exampleCtx) - (43.2 + 81)"
proof -
  have on: "withCta True exampleSlide = exampleSlide"
    by (simp add: withCta_def exampleSlide_def exampleCta_def)
  have hyp: "cta_enabled (cta exampleSlide) \<and> cta_text (cta exampleSlide) \<noteq> []
      \<and> verticalAlign (layoutStyle exampleSlide) = VA_bottom"
    by (simp add: exampleSlide_def exampleCta_def)
  have off: "\<not> (cta_enabled (cta (withCta False exampleSlide)) \<and> cta_text (cta (withCta False exampleSlide)) \<noteq> [])"
    by (simp add: withCta_def)
  from cta_term_in_total_height [of exampleSlide exampleMeasure 400 0 exampleCtx] hyp
  have "totalTextHeight (layoutOf exampleMeasure (withCta True exampleSlide) 400 0 exampleCtx) =
        totalTextHeight (layoutOf exampleMeasure (withCta False exampleSlide) 400 0 exampleCtx)
        + (16 * (1080 / 400) + ctaBlockHeight (layoutOf exampleMeasure (withCta True exampleSlide) 400 0 exampleCtx))"
    and "startY (layoutOf exampleMeasure (withCta True exampleSlide) 400 0 exampleCtx) =
            startY (layoutOf exampleMeasure (withCta False exampleSlide) 400 0 exampleCtx)
            - (16 * (1080 / 400) + ctaBlockHeight (layoutOf exampleMeasure (withCta True exampleSlide) 400 0 exampleCtx))"
    by blast+
  moreover
  from cta_term_in_total_height [of "withCta False exampleSlide" exampleMeasure 400 0 exampleCtx] off
  have "totalTextHeight (layoutOf exampleMeasure (withCta False exampleSlide) 400 0 exampleCtx) =
       height (titleMetrics (layoutOf exampleMeasure (withCta False exampleSlide) 400 0 exampleCtx))
       + spacing (layoutStyle (withCta False exampleSlide)) * (1080 / 400)
       + height (bodyMetrics (layoutOf exampleMeasure (withCta False exampleSlide) 400 0 exampleCtx))"
    by blast
  moreover have "spacing (layoutStyle (withCta False exampleSlide)) = 12"
    by (simp add: withCta_def exampleSlide_def)
  ultimately show ?thesis
    unfolding on example_cta_block_height using hyp on off by simp
qed

text \<open>
  C6. For positive factors \<open>f1\<close> and \<open>f2\<close>, scaling by \<open>f1\<close> and then by
  \<open>f2 / f1\<close> is scaling once by \<open>f2\<close>. Scaling twice multiplies the font size and the
  shadow's blur, x offset and y offset by the product of the factors; the colours, the
  alignment, the highlight colour, the font family and the shadow's flag are unchanged.
\<close>

theorem scale_composes:
  "(0 < f1 \<and> 0 < f2 \<longrightarrow> scaleStyle (scaleStyle st f1) (f2 / f1) = scaleStyle st f2)
   \<and> fontSize (scaleStyle (scaleStyle st f1) g) = fontSize st * (f1 * g)
   \<and> blur (shadow (scaleStyle (scaleStyle st f1) g)) = blur (shadow st) * (f1 * g)
   \<and> offsetX (shadow (scaleStyle (scaleStyle st f1) g)) = offsetX (shadow st) * (f1 * g)
   \<and> offsetY (shadow (scaleStyle (scaleStyle st f1) g)) = offsetY (shadow st) * (f1 * g)
   \<and> color (scaleStyle st f) = color st
   \<and> textAlign (scaleStyle st f) = textAlign st
   \<and> highlightColor (scaleStyle st f) = highlightColor st
   \<and> fontFamily (scaleStyle st f) = fontFamily st
   \<and> shadow_color (shadow (scaleStyle st f)) = shadow_color (shadow st)
   \<and> shadow_enabled (shadow (scaleStyle st f)) = shadow_enabled (shadow st)"
  by (simp add: scaleStyle_def)

theorem scale_composes_witness:
  "(0::real) < 2 \<and> (0::real) < 2.7
   \<and> scaleStyle (scaleStyle exampleStyle 2) (2.7 / 2) = scaleStyle exampleStyle 2.7
   \<and> fontSize (scaleStyle exampleStyle 2.7) = 27"
  using scale_composes [of 2 "2.7" exampleStyle 1 1]
  by (simp add: scaleStyle_def exampleStyle_def)

text \<open>
  C7. At a break marker the wrap closes what it has as if the input ended there (the
  current line is pushed when it is not empty), pushes one line without fragments and
  starts afresh: the lines of runs around a break are the lines of the runs before it,
  one empty line, and the lines of the runs after it. So no line holds fragments from
  both sides. The text of A, a newline and B gives three lines, whatever the measurement
  and the width: A alone, the empty line, B alone.
\<close>

theorem break_marker_separates_lines:
  "(part_isNewline p \<longrightarrow>
      lines (getWrappedStyledTextMetrics mt ctx (pre @ [p] @ post) style maxWidth) =
        lines (getWrappedStyledTextMetrics mt ctx pre style maxWidth) @ [[]] @
        lines (getWrappedStyledTextMetrics mt ctx post style maxWidth))
   \<and> lines (getWrappedStyledTextMetrics mt ctx (parseStyledText (str ''A\<newline>B'')) style maxWidth) =
       [[\<lparr>frag_text = str ''A'', frag_isHighlighted = False\<rparr>], [],
        [\<lparr>frag_text = str ''B'', frag_isHighlighted = False\<rparr>]]"
proof (intro conjI impI)
  assume "part_isNewline p"
  then show "lines (getWrappedStyledTextMetrics mt ctx (pre @ [p] @ post) style maxWidth) =
        lines (getWrappedStyledTextMetrics mt ctx pre style maxWidth) @ [[]] @
        lines (getWrappedStyledTextMetrics mt ctx post style maxWidth)"
    by (rule wrap_break)
next
  show "lines (getWrappedStyledTextMetrics mt ctx (parseStyledText (str ''A\<newline>B'')) style maxWidth) =
       [[\<lparr>frag_text = str ''A'', frag_isHighlighted = False\<rparr>], [],
        [\<lparr>frag_text = str ''B'', frag_isHighlighted = False\<rparr>]]"
    by (simp add: parse_simps wrap_simps)
qed

theorem break_marker_separates_lines_witness:
  "part_isNewline \<lparr>part_text = [], part_isHighlighted = False, part_isNewline = True\<rparr>
   \<and> lines (getWrappedStyledTextMetrics exampleMeasure exampleCtx
        (parseStyledText (str ''aa bb'') @ [\<lparr>part_text = [], part_isHighlighted = False, part_isNewline = True\<rparr>]
           @ parseStyledText (str ''cc'')) exampleStyle 100) =
      [[\<lparr>frag_text = str ''aa '', frag_isHighlighted = False\<rparr>,
        \<lparr>frag_text = str ''bb'', frag_isHighlighted = False\<rparr>], [],
       [\<lparr>frag_text = str ''cc'', frag_isHighlighted = False\<rparr>]]
   \<and> parseStyledText (str ''aa bb\<newline>cc'') =
        parseStyledText (str ''aa bb'') @ [\<lparr>part_text = [], part_isHighlighted = False, part_isNewline = True\<rparr>]
           @ parseStyledText (str ''cc'')"
  using break_marker_separates_lines [of "\<lparr>part_text = [], part_isHighlighted = False, part_isNewline = True\<rparr>"
      exampleMeasure exampleCtx "parseStyledText (str ''aa bb'')" "parseStyledText (str ''cc'')" exampleStyle 100]
  by (simp add: parse_simps wrap_simps exampleMeasure_def)

text \<open>
  C8. The height \<^verbatim>\<open>getWrappedStyledTextMetrics\<close> returns is the number of lines
  times the font size times 1.4, for every input. \<^verbatim>\<open>drawStyledTextLines\<close> uses the
  same constant: every fragment of line \<open>i\<close> is drawn at \<open>y + i\<close> times the font size
  times 1.4. The copies of both functions in \<^verbatim>\<open>App.tsx\<close> are the same statement by
  statement.
\<close>

theorem wrap_height_formula:
  "height (getWrappedStyledTextMetrics mt ctx parsedText style maxWidth) =
     real (length (lines (getWrappedStyledTextMetrics mt ctx parsedText style maxWidth))) * fontSize style * 1.4
   \<and> fillTextYs (ops (drawStyledTextLines mt ctx ls x y style)) =
       fillTextYs (ops ctx) @
       concat (map (\<lambda>i. replicate (length (ls ! i)) (y + real i * fontSize style * 1.4)) [0..<length ls])"
  by (simp add: wrap_height drawStyledTextLines_ys mult.assoc)

text \<open>
  C9. Whatever the preview width, a canvas the compositor returns is 1080 by 1080 for
  the ratio 1:1 and 1080 by 1440 for the ratio 4:5, and it returns one when the slide
  has an image source, a context can be made and the background draw call is accepted;
  1440 is \<^verbatim>\<open>Math.round(1080 * (4 / 3))\<close>.
\<close>

theorem canvas_size:
  "(completion (createSlideCanvas e slide logo logoSize imageOverlay aspectRatio previewWidth) = Returns (Some cv) \<longrightarrow>
      cv = \<lparr>canvas_width = 1080,
             canvas_height = (case aspectRatio of AR_1_1 \<Rightarrow> 1080 | AR_4_5 \<Rightarrow> 1440)\<rparr>)
   \<and> (hasContext e \<and> src slide = Some bgSrc \<and> bgSrc \<noteq> []
        \<and> (loadImage e bgSrc \<noteq> None \<or> drawImageAcceptsBroken e) \<longrightarrow>
      completion (createSlideCanvas e slide logo logoSize imageOverlay aspectRatio previewWidth) =
        Returns (Some \<lparr>canvas_width = 1080,
                        canvas_height = (case aspectRatio of AR_1_1 \<Rightarrow> 1080 | AR_4_5 \<Rightarrow> 1440)\<rparr>))
   \<and> round (1080 * (4 / 3) :: real) = 1440"
proof -
  have size: "newCanvas aspectRatio =
      \<lparr>canvas_width = 1080, canvas_height = (case aspectRatio of AR_1_1 \<Rightarrow> 1080 | AR_4_5 \<Rightarrow> 1440)\<rparr>"
    by (cases aspectRatio) (simp_all add: newCanvas_def outputSize_def)
  have some: "completion (createSlideCanvas e slide logo logoSize imageOverlay aspectRatio previewWidth) = Returns (Some cv)
      \<Longrightarrow> cv = newCanvas aspectRatio"
    by (cases "src slide")
       (simp_all add: createSlideCanvas_def Let_def split_def split: if_splits)
  have ret: "hasContext e \<and> src slide = Some bgSrc \<and> bgSrc \<noteq> []
        \<and> (loadImage e bgSrc \<noteq> None \<or> drawImageAcceptsBroken e) \<Longrightarrow>
      completion (createSlideCanvas e slide logo logoSize imageOverlay aspectRatio previewWidth) =
        Returns (Some (newCanvas aspectRatio))"
    by (auto simp add: createSlideCanvas_def Let_def split_def)
  have "round (1080 * (4 / 3) :: real) = 1440" by simp
  with some ret show ?thesis unfolding size by blast
qed

theorem canvas_size_witness:
  "hasContext exampleEnv \<and> src exampleSlide = Some (str ''blob:bg'') \<and> str ''blob:bg'' \<noteq> []
   \<and> loadImage exampleEnv (str ''blob:bg'') \<noteq> None
   \<and> completion (createSlideCanvas exampleEnv exampleSlide None 15 exampleOverlay AR_1_1 400) =
       Returns (Some \<lparr>canvas_width = 1080, canvas_height = 1080\<rparr>)
   \<and> completion (createSlideCanvas exampleEnv exampleSlide None 15 exampleOverlay AR_4_5 400) =
       Returns (Some \<lparr>canvas_width = 1080, canvas_height = 1440\<rparr>)"
  using canvas_size [of exampleEnv exampleSlide None 15 exampleOverlay AR_1_1 400 "\<lparr>canvas_width = 1080, canvas_height = 1080\<rparr>" "str ''blob:bg''"]
    canvas_size [of exampleEnv exampleSlide None 15 exampleOverlay AR_4_5 400 "\<lparr>canvas_width = 1080, canvas_height = 1440\<rparr>" "str ''blob:bg''"]
  by (simp add: exampleEnv_def exampleSlide_def)

text \<open>
  C10. When the call-to-action is enabled and its text is not empty but holds only
  spaces, the text wraps to no line, \<^verbatim>\<open>Math.max\<close> gets no argument and the pill
  width is not a finite number. This is reached through \<^verbatim>\<open>createSlideCanvas\<close>: it
  returns a canvas and has drawn the pill path with that width.
\<close>

theorem cta_of_spaces_has_no_width:
  "cta_enabled (cta slide) \<Longrightarrow> cta_text (cta slide) \<noteq> [] \<Longrightarrow> set (cta_text (cta slide)) \<subseteq> {SPACE} \<Longrightarrow>
   ctaLines (fst (calculateTextMetrics mt slide sc reservedLogoHeight ctx)) = []
   \<and> Math_max (map (\<lambda>line. measureText mt ctx (concat (map frag_text line)))
         (ctaLines (fst (calculateTextMetrics mt slide sc reservedLogoHeight ctx)))) = None
   \<and> ctaBlockWidth (fst (calculateTextMetrics mt slide sc reservedLogoHeight ctx)) = None
   \<and> (hasContext e \<and> src slide = Some bgSrc \<and> bgSrc \<noteq> []
        \<and> (loadImage e bgSrc \<noteq> None \<or> drawImageAcceptsBroken e) \<longrightarrow>
        completion (createSlideCanvas e slide logo logoSize imageOverlay aspectRatio previewWidth)
          = Returns (Some (newCanvas aspectRatio))
        \<and> (\<exists>x y h r. (if hasRoundRect e then RoundRect x y None h r else Rect x y None h)
              \<in> set (performed (createSlideCanvas e slide logo logoSize imageOverlay aspectRatio previewWidth))))"
proof -
  assume a: "cta_enabled (cta slide)" "cta_text (cta slide) \<noteq> []" "set (cta_text (cta slide)) \<subseteq> {SPACE}"
  have l: "\<And>mt sc r ctx. ctaLines (fst (calculateTextMetrics mt slide sc r ctx)) = []"
    and w: "\<And>mt sc r ctx. ctaBlockWidth (fst (calculateTextMetrics mt slide sc r ctx)) = None"
    using calc_cta_spaces [OF a] by blast+
  have p: "ctaPresent slide" using a by (simp add: ctaPresent_def)
  show ?thesis
  proof (intro conjI impI)
    show "ctaLines (fst (calculateTextMetrics mt slide sc reservedLogoHeight ctx)) = []" by (rule l)
    then show "Math_max (map (\<lambda>line. measureText mt ctx (concat (map frag_text line)))
         (ctaLines (fst (calculateTextMetrics mt slide sc reservedLogoHeight ctx)))) = None" by simp
    show "ctaBlockWidth (fst (calculateTextMetrics mt slide sc reservedLogoHeight ctx)) = None" by (rule w)
  next
    assume "hasContext e \<and> src slide = Some bgSrc \<and> bgSrc \<noteq> []
        \<and> (loadImage e bgSrc \<noteq> None \<or> drawImageAcceptsBroken e)"
    then show "completion (createSlideCanvas e slide logo logoSize imageOverlay aspectRatio previewWidth)
          = Returns (Some (newCanvas aspectRatio))"
      by (auto simp add: createSlideCanvas_def Let_def split_def)
  next
    assume h: "hasContext e \<and> src slide = Some bgSrc \<and> bgSrc \<noteq> []
        \<and> (loadImage e bgSrc \<noteq> None \<or> drawImageAcceptsBroken e)"
    let ?sc = "scaleSlide slide previewWidth"
    let ?c0 = "\<lparr>ctx_font = initialFont, ctx_canvas = newCanvas aspectRatio, ops = []\<rparr>"
    let ?lg = "drawLogo e logo logoSize (drawBackgroundAndOverlay e bgSrc imageOverlay ?c0)"
    let ?cm = "calculateTextMetrics (env_measure e) slide ?sc (snd ?lg) (fst ?lg)"
    have perf: "performed (createSlideCanvas e slide logo logoSize imageOverlay aspectRatio previewWidth) =
        ops (drawAllElements e slide ?sc (fst ?cm) (snd ?cm))"
      using h by (auto simp add: createSlideCanvas_def Let_def split_def)
    from drawAllElements_cta_spaces [OF p l w, of e "env_measure e" ?sc "snd ?lg" "fst ?lg" ?sc "snd ?cm"]
    show "\<exists>x y h r. (if hasRoundRect e then RoundRect x y None h r else Rect x y None h)
              \<in> set (performed (createSlideCanvas e slide logo logoSize imageOverlay aspectRatio previewWidth))"
      unfolding perf by (cases "hasRoundRect e") (simp_all, blast+)
  qed
qed

theorem cta_of_spaces_has_no_width_witness:
  "cta_enabled (cta spacesSlide) \<and> cta_text (cta spacesSlide) \<noteq> []
   \<and> set (cta_text (cta spacesSlide)) \<subseteq> {SPACE}
   \<and> hasContext exampleEnv \<and> src spacesSlide = Some (str ''blob:bg'') \<and> str ''blob:bg'' \<noteq> []
   \<and> loadImage exampleEnv (str ''blob:bg'') \<noteq> None
   \<and> ctaBlockWidth (fst (calculateTextMetrics exampleMeasure spacesSlide (scaleSlide spacesSlide 400) 0 exampleCtx)) = None
   \<and> (\<exists>x y h r. RoundRect x y None h r
          \<in> set (performed (createSlideCanvas exampleEnv spacesSlide None 15 exampleOverlay AR_1_1 400)))"
  using cta_of_spaces_has_no_width [of spacesSlide exampleMeasure "scaleSlide spacesSlide 400" 0 exampleCtx
      exampleEnv "str ''blob:bg''" None 15 exampleOverlay AR_1_1 400]
  by (simp add: spacesSlide_def example_simps)

end
